theory Spec2Isabelle
  imports Complex_Main "HOL-Library.List_Lexorder" "HOL-Library.Char_ord"
    "HOL-Library.Product_Lexorder" "HOL-Library.Multiset" "HOL-Library.AList"
begin

section \<open>CoachByte backend: day state, load resolution, queue and rest timer\<close>

text \<open>
  A shallow embedding of \<^verbatim>\<open>services/backend/db.js\<close>, of the routes of
  \<^verbatim>\<open>services/backend/server.js\<close> that do more than forward to it
  (\<^verbatim>\<open>POST /api/days/:id/completed\<close> and \<^verbatim>\<open>GET /api/timer\<close>) and of the component
  \<^verbatim>\<open>ui/src/PRTracker.jsx\<close> with the routes it calls.

  Conventions of the model.
  \<^item> A JavaScript number is the rational that the double stands for (\<^typ>\<open>rat\<close>), and
    an arithmetic operation of the source gives the double nearest to its exact result.
    \<^verbatim>\<open>NaN\<close> is modelled where the code produces it from something that is not a
    number; the infinities, and loads that are \<^verbatim>\<open>NaN\<close> or infinite in the store, are
    not.
  \<^item> Strings are ASCII character lists.
  \<^item> A calendar date is its day number, the days since 1970-01-01 (a Thursday); the
    \<^verbatim>\<open>Date\<close> arithmetic of the source (one day back, day of the week) is
    arithmetic on that number.
  \<^item> A table is the list of its rows in insertion order, an \<^verbatim>\<open>ORDER BY\<close> is a
    stable sort of it, and every statement is committed on its own, as the source runs
    each one on a pooled connection with no transaction.
  \<^item> Time is counted in whole seconds.
\<close>

subsection \<open>Strings\<close>

definition is_digit :: "char \<Rightarrow> bool" where
  "is_digit c = (CHR ''0'' \<le> c \<and> c \<le> CHR ''9'')"

definition digit_val :: "char \<Rightarrow> int" where
  "digit_val c = int (of_char c) - 48"

text \<open>The white space that \<^verbatim>\<open>String.prototype.trim\<close> and \<^verbatim>\<open>parseInt\<close> skip,
  within ASCII: space, tab, line feed, vertical tab, form feed, carriage return.\<close>

definition is_space :: "char \<Rightarrow> bool" where
  "is_space c = (c = CHR '' '' \<or> (9::nat) \<le> of_char c \<and> of_char c \<le> (13::nat))"

definition trim :: "string \<Rightarrow> string" where
  "trim s = rev (dropWhile is_space (rev (dropWhile is_space s)))"

definition decimal :: "string \<Rightarrow> int" where
  "decimal ds = foldl (\<lambda>n c. 10 * n + digit_val c) 0 ds"




text \<open>\<^verbatim>\<open>str.toLowerCase()\<close> and SQL \<^verbatim>\<open>LOWER\<close>, on ASCII.\<close>

definition lower_char :: "char \<Rightarrow> char" where
  "lower_char c =
     (if CHR ''A'' \<le> c \<and> c \<le> CHR ''Z'' then char_of (of_char c + (32::nat)) else c)"

definition lower :: "string \<Rightarrow> string" where
  "lower s = map lower_char s"

subsection \<open>Clock and calendar resolver\<close>


text \<open>
  Local wall-clock time: the calendar date (as a day number), the hour and the minute
  that \<^verbatim>\<open>tzFormatter.formatToParts\<close> gives for an instant, the formatter being
  \<^verbatim>\<open>Intl.DateTimeFormat\<close> for the configured \<^verbatim>\<open>DAY_TIME_ZONE\<close>. An instant is a
  number of seconds since the epoch. The conversion is the platform's and depends on
  the zone's rules: the formatter is a parameter, a function from instants to wall-clock
  readings.
\<close>

record wall_clock =
  wc_date :: int
  wc_hour :: int
  wc_minute :: int

text \<open>\<^verbatim>\<open>getTodayInEst()\<close>, with \<^verbatim>\<open>DAY_START_MINUTES\<close>, the formatter of the configured
  zone and the present instant (\<^verbatim>\<open>new Date()\<close>) as its arguments.\<close>

definition getTodayInEst :: "int \<Rightarrow> (int \<Rightarrow> wall_clock) \<Rightarrow> int \<Rightarrow> int" where
  "getTodayInEst day_start_minutes tzFormatter present =
     (let parts = tzFormatter present;
          minutesSinceMidnight = wc_hour parts * 60 + wc_minute parts
      in if minutesSinceMidnight < day_start_minutes then wc_date parts - 1
         else wc_date parts)"



subsection \<open>PR estimator\<close>

record pr =
  pr_reps :: int
  pr_maxLoad :: rat

text \<open>
  Arithmetic on doubles. \<open>fl x\<close> is the double nearest to \<open>x\<close>: \<open>x\<close> rounded to 53
  significant bits, a tie going to the even significand. \<open>bit_length n\<close> is the number
  of binary digits of a positive integer, \<open>floor_log2 x\<close> the exponent of the greatest
  power of two that does not exceed a positive rational. The range of the exponent is
  not modelled (no overflow, no subnormal numbers): the operands below are loads that a
  \<^verbatim>\<open>REAL\<close> column holds and repetition counts that an \<^verbatim>\<open>INTEGER\<close> column holds, and
  their products and quotients stay far inside the range of a double.
\<close>

function bit_length :: "int \<Rightarrow> int" where
  "bit_length n = (if n \<le> 0 then 0 else 1 + bit_length (n div 2))"
  by auto
termination by (relation "measure nat") auto

definition floor_log2 :: "rat \<Rightarrow> int" where
  "floor_log2 x =
     (let (p, q) = quotient_of x; d = bit_length p - bit_length q
      in if power_int 2 d \<le> x then d else d - 1)"

definition round_half_even :: "rat \<Rightarrow> int" where
  "round_half_even m =
     (let f = \<lfloor>m\<rfloor>; d = m - of_int f
      in if d < 1 / 2 then f else if 1 / 2 < d then f + 1 else if even f then f else f + 1)"

definition fl :: "rat \<Rightarrow> rat" where
  "fl x =
     (if x = 0 then 0
      else let ulp = power_int 2 (floor_log2 \<bar>x\<bar> - 52)
           in of_int (round_half_even (x / ulp)) * ulp)"

text \<open>The operators \<^verbatim>\<open>+\<close>, \<^verbatim>\<open>*\<close> and \<^verbatim>\<open>/\<close> on numbers.\<close>

definition fadd :: "rat \<Rightarrow> rat \<Rightarrow> rat" where
  "fadd x y = fl (x + y)"

definition fmul :: "rat \<Rightarrow> rat \<Rightarrow> rat" where
  "fmul x y = fl (x * y)"

definition fdiv :: "rat \<Rightarrow> rat \<Rightarrow> rat" where
  "fdiv x y = fl (x / y)"

text \<open>\<^verbatim>\<open>Math.round\<close>: the nearest integer, a half rounded up. It is exact on a double.\<close>

definition js_round :: "rat \<Rightarrow> int" where
  "js_round x = \<lfloor>x + 1 / 2\<rfloor>"

text \<open>The expression \<^verbatim>\<open>r.reps === 1 ? r.maxLoad : r.maxLoad * (1 + r.reps / 30)\<close>
  of the loops in \<^verbatim>\<open>getDay\<close> and \<^verbatim>\<open>applySplitIfEmpty\<close>.\<close>

definition estimate1RM :: "pr \<Rightarrow> rat" where
  "estimate1RM r =
     (if pr_reps r = 1 then pr_maxLoad r
      else fmul (pr_maxLoad r) (fadd 1 (fdiv (of_int (pr_reps r)) 30)))"

text \<open>The inner loop of the same two functions:
  \<^verbatim>\<open>let max = 0; for (const r of records) { const est = ...; if (est > max) max = est; }\<close>\<close>

definition oneRepMax :: "pr list \<Rightarrow> rat" where
  "oneRepMax records =
     fold (\<lambda>r mx. let est = estimate1RM r in if est > mx then est else mx) records 0"

subsection \<open>Objects used as tables\<close>

text \<open>
  \<^verbatim>\<open>prsByExercise\<close>, \<^verbatim>\<open>oneRMs\<close> and \<^verbatim>\<open>processed\<close> are plain objects, created as
  \<^verbatim>\<open>{}\<close> and indexed by exercise names. Such an object is modelled as the list of its
  own properties, in the order of their creation (the order in which
  \<^verbatim>\<open>Object.entries\<close> lists names that are not array indices; nothing below depends on
  the order). Reading a name that is not an own property finds what the object inherits
  from \<^verbatim>\<open>Object.prototype\<close>, whose properties are listed here: each holds a function,
  except \<^verbatim>\<open>__proto__\<close>, an accessor that reads as the prototype itself and takes an
  assignment without creating an own property (an object filled by assignment has no
  own property of that name).
\<close>

definition Object_prototype :: "string list" where
  "Object_prototype =
     [''constructor'', ''__defineGetter__'', ''__defineSetter__'', ''hasOwnProperty'',
      ''__lookupGetter__'', ''__lookupSetter__'', ''isPrototypeOf'',
      ''propertyIsEnumerable'', ''toString'', ''valueOf'', ''__proto__'',
      ''toLocaleString'']"

datatype 'a property = Own 'a | Inherited | Missing

text \<open>\<^verbatim>\<open>obj[key]\<close>; \<open>Missing\<close> is \<^verbatim>\<open>undefined\<close>.\<close>

definition get_property :: "(string \<times> 'a) list \<Rightarrow> string \<Rightarrow> 'a property" where
  "get_property obj key =
     (if key = ''__proto__'' then Inherited
      else case map_of obj key of
             Some v \<Rightarrow> Own v
           | None \<Rightarrow> if key \<in> set Object_prototype then Inherited else Missing)"

text \<open>\<^verbatim>\<open>obj[key] = v\<close>\<close>

definition assign_property :: "(string \<times> 'a) list \<Rightarrow> string \<Rightarrow> 'a \<Rightarrow> (string \<times> 'a) list" where
  "assign_property obj key v = (if key = ''__proto__'' then obj else AList.update key v obj)"

subsection \<open>Presentation of PRs (\<^verbatim>\<open>PRTracker.jsx\<close>)\<close>

record shown_pr =
  sp_reps :: int
  sp_maxLoad :: rat
  sp_estimated :: bool

text \<open>A record of the response as the list shows it: it has no \<^verbatim>\<open>estimated\<close>
  field, which reads as false.\<close>

definition shown :: "pr \<Rightarrow> shown_pr" where
  "shown r = \<lparr>sp_reps = pr_reps r, sp_maxLoad = pr_maxLoad r, sp_estimated = False\<rparr>"

text \<open>\<^verbatim>\<open>Math.round(load * (1 + reps / 30))\<close>\<close>

definition computeEstimated1RM :: "int \<Rightarrow> rat \<Rightarrow> int" where
  "computeEstimated1RM reps load = js_round (fmul load (fadd 1 (fdiv (of_int reps) 30)))"

text \<open>The body of the loop of \<^verbatim>\<open>processPRs\<close>, for the list of one exercise.\<close>

definition processPRList :: "pr list \<Rightarrow> shown_pr list" where
  "processPRList prList =
     (let sorted = sort_key pr_reps prList;
          hasOneRM = list_ex (\<lambda>p. pr_reps p = 1) sorted
      in case sorted of
           [] \<Rightarrow> map shown sorted
         | next # _ \<Rightarrow>
             if \<not> hasOneRM then
               \<lparr>sp_reps = 1,
                sp_maxLoad = of_int (computeEstimated1RM (pr_reps next) (pr_maxLoad next)),
                sp_estimated = True\<rparr> # map shown sorted
             else map shown sorted)"

text \<open>\<^verbatim>\<open>processPRs(data)\<close>: the loop over \<^verbatim>\<open>Object.entries(data)\<close>, each turn
  assigning \<^verbatim>\<open>processed[exercise]\<close>.\<close>

definition processPRs :: "(string \<times> pr list) list \<Rightarrow> (string \<times> shown_pr list) list" where
  "processPRs data =
     fold (\<lambda>(exercise, prList) processed. assign_property processed exercise (processPRList prList))
       data []"

subsection \<open>Request values and the store's column types\<close>

text \<open>
  A field of a JSON request body, as \<^verbatim>\<open>express.json()\<close> hands it to the code:
  absent, \<^verbatim>\<open>null\<close>, a boolean, a number or a string. The inputs of the UI's own
  forms arrive as strings (\<^verbatim>\<open>rest: e.target.value\<close>).
\<close>

datatype jsval = JUndefined | JNull | JBool bool | JNum rat | JStr string

fun truthy :: "jsval \<Rightarrow> bool" where
  "truthy JUndefined = False"
| "truthy JNull = False"
| "truthy (JBool b) = b"
| "truthy (JNum q) = (q \<noteq> 0)"
| "truthy (JStr s) = (s \<noteq> [])"

text \<open>\<^verbatim>\<open>a || b\<close>\<close>

definition js_or :: "jsval \<Rightarrow> jsval \<Rightarrow> jsval" where
  "js_or a b = (if truthy a then a else b)"

text \<open>
  What a column makes of a query parameter: the driver sends \<^verbatim>\<open>null\<close> and
  \<^verbatim>\<open>undefined\<close> as SQL \<^verbatim>\<open>NULL\<close> and everything else as text, which the column's
  type reads or rejects (the statement then fails). The reading of text is the store's,
  not the repository's. For \<^verbatim>\<open>INTEGER\<close> and \<^verbatim>\<open>BOOLEAN\<close> it is modelled: an optional
  sign and decimal digits, and the spellings of the two truth values.

  For \<^verbatim>\<open>REAL\<close> it is a parameter of the model, \<open>rd\<close>: the store reads decimal and
  exponent notation, rounds to single precision, refuses what is out of range, and the
  driver later hands the stored value back as a double. \<open>rd v\<close> is the number that the
  code reads back from a \<^verbatim>\<open>REAL\<close> column that was given \<open>v\<close>, and \<open>None\<close> when the
  column refuses \<open>v\<close>.
\<close>

datatype 'a param = PRejected | PNull | PVal 'a

definition unsigned :: "string \<Rightarrow> string" where
  "unsigned t = (if t \<noteq> [] \<and> (hd t = CHR ''-'' \<or> hd t = CHR ''+'') then tl t else t)"

definition negative :: "string \<Rightarrow> bool" where
  "negative t = (t \<noteq> [] \<and> hd t = CHR ''-'')"

definition in_int4 :: "int \<Rightarrow> bool" where
  "in_int4 n = (- 2147483648 \<le> n \<and> n \<le> 2147483647)"

definition int4in :: "string \<Rightarrow> int option" where
  "int4in s =
     (let t = trim s; u = unsigned t;
          n = (if negative t then - decimal u else decimal u)
      in if u \<noteq> [] \<and> list_all is_digit u \<and> in_int4 n then Some n else None)"

definition boolin :: "string \<Rightarrow> bool option" where
  "boolin s =
     (let t = lower (trim s)
      in if t \<in> set [''t'', ''tr'', ''tru'', ''true'', ''y'', ''ye'', ''yes'', ''on'', ''1'']
         then Some True
         else if t \<in> set [''f'', ''fa'', ''fal'', ''fals'', ''false'', ''n'', ''no'', ''of'',
                           ''off'', ''0'']
         then Some False else None)"

fun int4 :: "jsval \<Rightarrow> int param" where
  "int4 JUndefined = PNull"
| "int4 JNull = PNull"
| "int4 (JBool b) = PRejected"
| "int4 (JNum q) = (if of_int \<lfloor>q\<rfloor> = q \<and> in_int4 \<lfloor>q\<rfloor> then PVal \<lfloor>q\<rfloor> else PRejected)"
| "int4 (JStr s) = (case int4in s of None \<Rightarrow> PRejected | Some n \<Rightarrow> PVal n)"

definition float4 :: "(jsval \<Rightarrow> rat option) \<Rightarrow> jsval \<Rightarrow> rat param" where
  "float4 rd v =
     (if v = JUndefined \<or> v = JNull then PNull
      else case rd v of None \<Rightarrow> PRejected | Some q \<Rightarrow> PVal q)"

fun bool4 :: "jsval \<Rightarrow> bool param" where
  "bool4 JUndefined = PNull"
| "bool4 JNull = PNull"
| "bool4 (JBool b) = PVal b"
| "bool4 (JNum q) = (if q = 1 then PVal True else if q = 0 then PVal False else PRejected)"
| "bool4 (JStr s) = (case boolin s of None \<Rightarrow> PRejected | Some b \<Rightarrow> PVal b)"

text \<open>
  An example of a reading, for the closed examples below: it is the store's on whole
  numbers of a magnitude up to \<open>2 ^ 24\<close>, which single precision holds exactly, given as
  numbers or as decimal text, and it refuses every other value (many of which the store
  reads).
\<close>

definition whole_loads :: "jsval \<Rightarrow> rat option" where
  "whole_loads v =
     (case v of
        JNum q \<Rightarrow> if of_int \<lfloor>q\<rfloor> = q \<and> \<bar>q\<bar> \<le> 16777216 then Some q else None
      | JStr t \<Rightarrow>
          (case int4in t of
             Some n \<Rightarrow> if \<bar>n\<bar> \<le> 16777216 then Some (of_int n) else None
           | None \<Rightarrow> None)
      | _ \<Rightarrow> None)"

text \<open>A \<^verbatim>\<open>NOT NULL\<close> column takes a value only; a nullable one takes \<^verbatim>\<open>NULL\<close> too.\<close>

fun required :: "'a param \<Rightarrow> 'a option" where
  "required (PVal v) = Some v"
| "required _ = None"

fun nullable :: "'a param \<Rightarrow> 'a option option" where
  "nullable (PVal v) = Some (Some v)"
| "nullable PNull = Some None"
| "nullable PRejected = None"

subsection \<open>The store\<close>

text \<open>
  The tables of \<^verbatim>\<open>initDb\<close> that the modelled operations touch. Columns that the
  schema leaves nullable but that no statement of the source ever fills with
  \<^verbatim>\<open>NULL\<close> (\<^verbatim>\<open>planned_sets.exercise_id\<close>, \<^verbatim>\<open>rest\<close>, \<^verbatim>\<open>relative\<close>, ...) carry
  plain values. A \<^verbatim>\<open>SERIAL\<close> key is drawn from the table's sequence, whose last value
  the state holds; values that a failed statement may consume are not modelled.
\<close>

record exercise =
  ex_id :: int
  ex_name :: string

record daily_log =
  dl_id :: string
  dl_date :: int
  dl_summary :: string

record planned_set =
  ps_id :: int
  ps_log_id :: string
  ps_exercise_id :: int
  ps_order_num :: int
  ps_reps :: int
  ps_load :: rat
  ps_rest :: int
  ps_relative :: bool

record completed_set =
  cs_id :: int
  cs_log_id :: string
  cs_exercise_id :: int
  cs_planned_set_id :: "int option"
  cs_reps_done :: "int option"
  cs_load_done :: "rat option"
  cs_completed_at :: int

record split_set =
  ss_id :: int
  ss_day_of_week :: int
  ss_exercise_id :: int
  ss_order_num :: int
  ss_reps :: int
  ss_load :: rat
  ss_rest :: int
  ss_relative :: bool

record timer_row =
  tm_id :: int
  tm_end_time :: int

record db =
  exercises :: "exercise list"
  exercises_seq :: int
  daily_logs :: "daily_log list"
  planned_sets :: "planned_set list"
  planned_sets_seq :: int
  completed_sets :: "completed_set list"
  completed_sets_seq :: int
  split_sets :: "split_set list"
  split_sets_seq :: int
  tracked_exercises :: "string list"
  timer :: "timer_row list"
  timer_seq :: int
  now :: int

text \<open>A rejected statement (the driver throws) and a \<^verbatim>\<open>TypeError\<close> of the route's
  own code; a route answers either with status 500.\<close>

datatype error = StoreError | TypeError

subsection \<open>Rest timer\<close>

text \<open>\<^verbatim>\<open>setTimerSeconds(seconds)\<close>: delete every row, insert one that ends
  \<^verbatim>\<open>Math.max(0, Number(seconds) || 0)\<close> seconds from now. The argument is a stored
  \<^verbatim>\<open>rest\<close>, an integer.\<close>

definition setTimerSeconds :: "int \<Rightarrow> db \<Rightarrow> db" where
  "setTimerSeconds seconds s =
     (let i = timer_seq s + 1
      in s\<lparr>timer := [\<lparr>tm_id = i, tm_end_time = now s + max 0 seconds\<rparr>], timer_seq := i\<rparr>)"

record timer_status =
  ts_running :: bool
  ts_remainingSeconds :: jsval
  ts_endsAt :: "int option"

text \<open>\<^verbatim>\<open>getTimerStatus()\<close>: the row of the greatest id
  (\<^verbatim>\<open>ORDER BY id DESC LIMIT 1\<close>), if there is one.\<close>

definition getTimerStatus :: "db \<Rightarrow> timer_status" where
  "getTimerStatus s =
     (case rev (sort_key tm_id (timer s)) of
        [] \<Rightarrow> \<lparr>ts_running = False, ts_remainingSeconds = JNum 0, ts_endsAt = None\<rparr>
      | row # _ \<Rightarrow>
          let remaining = max 0 (tm_end_time row - now s)
          in \<lparr>ts_running = (remaining > 0), ts_remainingSeconds = JNum (of_int remaining),
              ts_endsAt = Some (tm_end_time row)\<rparr>)"

datatype timer_state = no_timer | running | expired

record timer_response =
  tr_status :: timer_state
  tr_remaining_seconds :: rat
  tr_ends_at :: "int option"

text \<open>The route \<^verbatim>\<open>GET /api/timer\<close>. \<^verbatim>\<open>typeof t.remainingSeconds === 'number'\<close>
  is the test for \<open>JNum\<close>; \<^verbatim>\<open>t\<close> is an object, so \<^verbatim>\<open>t && ...\<close> is its right
  operand.\<close>

definition get_api_timer :: "db \<Rightarrow> timer_response" where
  "get_api_timer s =
     (let t = getTimerStatus s;
          status = (case ts_remainingSeconds t of
                      JNum n \<Rightarrow> if n > 0 then running else expired
                    | _ \<Rightarrow> no_timer)
      in \<lparr>tr_status = status,
          tr_remaining_seconds =
            (case js_or (ts_remainingSeconds t) (JNum 0) of JNum n \<Rightarrow> max 0 n | _ \<Rightarrow> 0),
          tr_ends_at = ts_endsAt t\<rparr>)"

text \<open>The passing of \<open>n\<close> seconds.\<close>

definition advance :: "int \<Rightarrow> db \<Rightarrow> db" where
  "advance n s = s\<lparr>now := now s + n\<rparr>"

subsection \<open>Personal records from the completion history\<close>

text \<open>The rows of the query of \<^verbatim>\<open>getPRs\<close> before grouping: the completed sets of
  tracked exercises with positive repetitions and load.\<close>

definition pr_candidates :: "db \<Rightarrow> (string \<times> int \<times> rat) list" where
  "pr_candidates s =
     (let trackedExercises = map lower (tracked_exercises s)
      in concat (map (\<lambda>c. concat (map (\<lambda>e.
           (case (cs_reps_done c, cs_load_done c) of
              (Some r, Some l) \<Rightarrow>
                if cs_exercise_id c = ex_id e \<and> lower (ex_name e) \<in> set trackedExercises
                   \<and> r > 0 \<and> l > 0
                then [(lower (ex_name e), r, l)] else []
            | _ \<Rightarrow> []))
           (exercises s))) (completed_sets s)))"

text \<open>\<^verbatim>\<open>MAX(cs.load_done)\<close> of the group of an exercise and a repetition count.\<close>

definition group_max :: "(string \<times> int \<times> rat) list \<Rightarrow> string \<Rightarrow> int \<Rightarrow> rat" where
  "group_max cands n r =
     (case map (\<lambda>(n', r', l). l) (filter (\<lambda>(n', r', l). n' = n \<and> r' = r) cands) of
        [] \<Rightarrow> 0
      | l # ls \<Rightarrow> fold max ls l)"

text \<open>The rows of the query: one per group, by name and repetitions.\<close>

definition pr_rows :: "db \<Rightarrow> (string \<times> pr) list" where
  "pr_rows s =
     (let cands = pr_candidates s
      in map (\<lambda>(n, r). (n, \<lparr>pr_reps = r, pr_maxLoad = group_max cands n r\<rparr>))
           (sort (remdups (map (\<lambda>(n, r, l). (n, r)) cands))))"

text \<open>
  The loop of \<^verbatim>\<open>getPRs\<close> over the rows:
  \<^verbatim>\<open>if (!prsByExercise[row.exercise]) prsByExercise[row.exercise] = [];\<close> then
  \<^verbatim>\<open>prsByExercise[row.exercise].push({...})\<close>. Under a name that the object inherits
  the first statement finds a function or the prototype, which is truthy, and the
  second finds no \<^verbatim>\<open>push\<close> on it: a \<^verbatim>\<open>TypeError\<close>.
\<close>

fun group_rows ::
  "(string \<times> pr) list \<Rightarrow> (string \<times> pr list) list \<Rightarrow> error + (string \<times> pr list) list" where
  "group_rows [] prsByExercise = Inr prsByExercise"
| "group_rows ((exercise, r) # rows) prsByExercise =
     (case get_property prsByExercise exercise of
        Missing \<Rightarrow> group_rows rows (assign_property prsByExercise exercise [r])
      | Own rs \<Rightarrow> group_rows rows (assign_property prsByExercise exercise (rs @ [r]))
      | Inherited \<Rightarrow> Inl TypeError)"

text \<open>\<^verbatim>\<open>getPRs()\<close>: nothing when no exercise is tracked, else the rows grouped by
  exercise. It reads the store only.\<close>

definition getPRs :: "db \<Rightarrow> error + (string \<times> pr list) list" where
  "getPRs s = (if tracked_exercises s = [] then Inr [] else group_rows (pr_rows s) [])"

text \<open>The table \<^verbatim>\<open>oneRMs\<close> that \<^verbatim>\<open>getDay\<close> and \<^verbatim>\<open>applySplitIfEmpty\<close> build from
  the result of \<^verbatim>\<open>getPRs()\<close>: a property for each of its properties, of the same
  name.\<close>

definition oneRMs :: "(string \<times> pr list) list \<Rightarrow> (string \<times> rat) list" where
  "oneRMs prs = map (\<lambda>(ex, records). (ex, oneRepMax records)) prs"

subsection \<open>Exercises and days\<close>

text \<open>\<^verbatim>\<open>getExerciseId(name)\<close>: the first exercise of that name, letter case aside,
  else a new one. \<open>None\<close> is a missing name, which \<^verbatim>\<open>name VARCHAR(255) NOT NULL\<close>
  rejects, as it does a name of more than 255 characters.\<close>

definition getExerciseId :: "string option \<Rightarrow> db \<Rightarrow> (error + int) \<times> db" where
  "getExerciseId name s =
     (case name of
        None \<Rightarrow> (Inl StoreError, s)
      | Some n \<Rightarrow>
          (case filter (\<lambda>e. lower (ex_name e) = lower n) (exercises s) of
             e # _ \<Rightarrow> (Inr (ex_id e), s)
           | [] \<Rightarrow>
               if length n > 255 then (Inl StoreError, s)
               else let i = exercises_seq s + 1
                    in (Inr i, s\<lparr>exercises := exercises s @ [\<lparr>ex_id = i, ex_name = n\<rparr>],
                                 exercises_seq := i\<rparr>)))"

text \<open>\<^verbatim>\<open>ensureDay(dateStr)\<close>, with the identifier that \<^verbatim>\<open>generateUuid()\<close> would
  draw as its first argument; the primary key rejects one that is in use.\<close>

definition ensureDay :: "string \<Rightarrow> int \<Rightarrow> db \<Rightarrow> (error + string) \<times> db" where
  "ensureDay uuid dateStr s =
     (case filter (\<lambda>d. dl_date d = dateStr) (daily_logs s) of
        d # _ \<Rightarrow> (Inr (dl_id d), s)
      | [] \<Rightarrow>
          if list_ex (\<lambda>d. dl_id d = uuid) (daily_logs s) then (Inl StoreError, s)
          else (Inr uuid,
                s\<lparr>daily_logs := daily_logs s @
                     [\<lparr>dl_id = uuid, dl_date = dateStr, dl_summary = []\<rparr>]\<rparr>))"

text \<open>\<^verbatim>\<open>new Date(logDate + 'T00:00:00').getDay()\<close>: 0 is Sunday.\<close>

definition getDay_of_week :: "int \<Rightarrow> int" where
  "getDay_of_week logDate = (logDate + 4) mod 7"

text \<open>The rows that \<^verbatim>\<open>applySplitIfEmpty\<close> selects: the template of the weekday,
  joined with its exercises, by \<^verbatim>\<open>order_num\<close>.\<close>

definition split_rows :: "int \<Rightarrow> db \<Rightarrow> split_set list" where
  "split_rows dow s =
     sort_key ss_order_num
       (concat (map (\<lambda>ss. map (\<lambda>e. ss)
                  (filter (\<lambda>e. ss_exercise_id ss = ex_id e) (exercises s)))
          (filter (\<lambda>ss. ss_day_of_week ss = dow) (split_sets s))))"

text \<open>The loop of inserts of \<^verbatim>\<open>applySplitIfEmpty\<close>: one planned set per row, the load,
  the rest and the flag as the template has them.\<close>

fun clone_rows :: "string \<Rightarrow> split_set list \<Rightarrow> db \<Rightarrow> db" where
  "clone_rows logId [] s = s"
| "clone_rows logId (row # rows) s =
     (let i = planned_sets_seq s + 1
      in clone_rows logId rows
           (s\<lparr>planned_sets := planned_sets s @
                 [\<lparr>ps_id = i, ps_log_id = logId, ps_exercise_id = ss_exercise_id row,
                   ps_order_num = ss_order_num row, ps_reps = ss_reps row,
                   ps_load = ss_load row, ps_rest = ss_rest row,
                   ps_relative = ss_relative row\<rparr>],
               planned_sets_seq := i\<rparr>))"

text \<open>\<^verbatim>\<open>applySplitIfEmpty(logId, logDate)\<close>: the count, the template's rows,
  \<^verbatim>\<open>getPRs()\<close>, whose error ends the call, then the inserts. The first insert fails on
  the foreign key \<^verbatim>\<open>log_id\<close> when no day has that identifier. (The table of one-rep
  maxima that the function builds from the PRs is never read.)\<close>

definition applySplitIfEmpty :: "string \<Rightarrow> int \<Rightarrow> db \<Rightarrow> (error + unit) \<times> db" where
  "applySplitIfEmpty logId logDate s =
     (if length (filter (\<lambda>p. ps_log_id p = logId) (planned_sets s)) > 0 then (Inr (), s)
      else let rows = split_rows (getDay_of_week logDate) s
           in case getPRs s of
                Inl e \<Rightarrow> (Inl e, s)
              | Inr prs \<Rightarrow>
                  if rows \<noteq> [] \<and> \<not> list_ex (\<lambda>d. dl_id d = logId) (daily_logs s)
                  then (Inl StoreError, s)
                  else (Inr (), clone_rows logId rows s))"

text \<open>\<^verbatim>\<open>ensureTodayPlan()\<close>, with the configured day start and the formatter of the
  configured zone; the present instant is the store's clock.\<close>

definition ensureTodayPlan ::
  "string \<Rightarrow> int \<Rightarrow> (int \<Rightarrow> wall_clock) \<Rightarrow> db \<Rightarrow> (error + string) \<times> db" where
  "ensureTodayPlan uuid day_start_minutes tzFormatter s =
     (let today = getTodayInEst day_start_minutes tzFormatter (now s)
      in case ensureDay uuid today s of
           (Inl e, s1) \<Rightarrow> (Inl e, s1)
         | (Inr logId, s1) \<Rightarrow>
             (case applySplitIfEmpty logId today s1 of
                (Inl e, s2) \<Rightarrow> (Inl e, s2)
              | (Inr u, s2) \<Rightarrow> (Inr logId, s2)))"

subsection \<open>The view of a day\<close>

record plan_row =
  pl_id :: int
  pl_exercise :: string
  pl_reps :: int
  pl_load :: rat
  pl_rest :: int
  pl_order_num :: int
  pl_relative :: bool

text \<open>A number that may be \<^verbatim>\<open>NaN\<close>.\<close>

datatype number = Num rat | NaN

record resolved_row = plan_row +
  calculatedLoad :: number
  originalLoad :: rat

record completed_row =
  cr_id :: int
  cr_exercise :: string
  cr_planned_set_id :: "int option"
  cr_reps_done :: "int option"
  cr_load_done :: "rat option"
  cr_completed_at :: int

record day_view =
  dv_log :: daily_log
  dv_plan :: "resolved_row list"
  dv_completed :: "completed_row list"

text \<open>The plan query of \<^verbatim>\<open>getDay\<close>: the planned sets of the day, joined with their
  exercises, left-joined with the completed sets that reference them and kept where
  that join found none (\<^verbatim>\<open>cs.id IS NULL\<close>), by \<^verbatim>\<open>order_num\<close>.\<close>

definition plan_query :: "string \<Rightarrow> db \<Rightarrow> plan_row list" where
  "plan_query logId s =
     sort_key pl_order_num
       (concat (map (\<lambda>ps. concat (map (\<lambda>e.
           if filter (\<lambda>c. cs_planned_set_id c = Some (ps_id ps)) (completed_sets s) = []
           then [\<lparr>pl_id = ps_id ps, pl_exercise = ex_name e, pl_reps = ps_reps ps,
                  pl_load = ps_load ps, pl_rest = ps_rest ps,
                  pl_order_num = ps_order_num ps, pl_relative = ps_relative ps\<rparr>]
           else [])
           (filter (\<lambda>e. ps_exercise_id ps = ex_id e) (exercises s))))
         (filter (\<lambda>ps. ps_log_id ps = logId) (planned_sets s))))"

text \<open>
  The callback of \<^verbatim>\<open>planResult.rows.map\<close>: a relative load is resolved against the
  table, \<^verbatim>\<open>rm = oneRMs[row.exercise.toLowerCase()]\<close> and
  \<^verbatim>\<open>rm ? Math.round(rm * row.load / 100) : 0\<close>. An inherited property is a function or
  the prototype: truthy, and \<^verbatim>\<open>NaN\<close> as a factor, which \<^verbatim>\<open>Math.round\<close> returns as
  it is.
\<close>

definition resolve :: "(string \<times> rat) list \<Rightarrow> plan_row \<Rightarrow> resolved_row" where
  "resolve tab row =
     (if pl_relative row then
        (let calculated =
           (case get_property tab (lower (pl_exercise row)) of
              Missing \<Rightarrow> Num 0
            | Own rm \<Rightarrow>
                if rm \<noteq> 0 then Num (of_int (js_round (fdiv (fmul rm (pl_load row)) 100)))
                else Num 0
            | Inherited \<Rightarrow> NaN)
         in plan_row.extend row \<lparr>calculatedLoad = calculated, originalLoad = pl_load row\<rparr>)
      else plan_row.extend row
             \<lparr>calculatedLoad = Num (pl_load row), originalLoad = pl_load row\<rparr>)"

text \<open>The completed sets of the day, the latest first.\<close>

definition completed_query :: "string \<Rightarrow> db \<Rightarrow> completed_row list" where
  "completed_query logId s =
     sort_key (\<lambda>r. - cr_completed_at r)
       (concat (map (\<lambda>c. map (\<lambda>e.
             \<lparr>cr_id = cs_id c, cr_exercise = ex_name e,
              cr_planned_set_id = cs_planned_set_id c, cr_reps_done = cs_reps_done c,
              cr_load_done = cs_load_done c, cr_completed_at = cs_completed_at c\<rparr>)
           (filter (\<lambda>e. cs_exercise_id c = ex_id e) (exercises s)))
         (filter (\<lambda>c. cs_log_id c = logId) (completed_sets s))))"

text \<open>\<^verbatim>\<open>getDay(id)\<close>; \<open>None\<close> is the \<^verbatim>\<open>null\<close> it returns for an unknown day. An
  error of \<^verbatim>\<open>applySplitIfEmpty\<close> or of \<^verbatim>\<open>getPRs\<close> ends the call.\<close>

definition getDay :: "string \<Rightarrow> db \<Rightarrow> (error + day_view option) \<times> db" where
  "getDay logId s =
     (case filter (\<lambda>d. dl_id d = logId) (daily_logs s) of
        [] \<Rightarrow> (Inr None, s)
      | log_row # _ \<Rightarrow>
          (case applySplitIfEmpty logId (dl_date log_row) s of
             (Inl e, s1) \<Rightarrow> (Inl e, s1)
           | (Inr u, s1) \<Rightarrow>
               (case getPRs s1 of
                  Inl e \<Rightarrow> (Inl e, s1)
                | Inr prs \<Rightarrow>
                    (Inr (Some \<lparr>dv_log = log_row,
                                dv_plan = map (resolve (oneRMs prs)) (plan_query logId s1),
                                dv_completed = completed_query logId s1\<rparr>), s1))))"

subsection \<open>Writes\<close>

text \<open>The body of a request that adds or updates a planned set or a template row, and
  of one that records a completed set. The exercise name is a string or missing.\<close>

record set_item =
  it_exercise :: "string option"
  it_order_num :: jsval
  it_reps :: jsval
  it_load :: jsval
  it_rest :: jsval
  it_relative :: jsval

record completed_item =
  ci_exercise :: "string option"
  ci_reps_done :: jsval
  ci_load_done :: jsval
  ci_planned_set_id :: jsval

text \<open>
  The parameters \<^verbatim>\<open>item.order_num, item.reps, item.load, rest, item.relative || false\<close>
  with \<^verbatim>\<open>rest = item.rest || 60\<close>, which \<^verbatim>\<open>addPlan\<close>, \<^verbatim>\<open>updatePlan\<close> and
  \<^verbatim>\<open>addSplit\<close> pass alike, as the columns read them; \<open>None\<close> when a column rejects
  its parameter. (\<^verbatim>\<open>order_num\<close>, \<^verbatim>\<open>reps\<close> and \<^verbatim>\<open>load\<close> are \<^verbatim>\<open>NOT NULL\<close>; the
  other two parameters are never null.)
\<close>

definition set_columns ::
  "(jsval \<Rightarrow> rat option) \<Rightarrow> set_item \<Rightarrow> (int \<times> int \<times> rat \<times> int \<times> bool) option" where
  "set_columns rd item =
     (let rest = js_or (it_rest item) (JNum 60)
      in case (required (int4 (it_order_num item)), required (int4 (it_reps item)),
               required (float4 rd (it_load item)), required (int4 rest),
               required (bool4 (js_or (it_relative item) (JBool False)))) of
           (Some order_num, Some reps, Some load, Some rest', Some relative) \<Rightarrow>
             Some (order_num, reps, load, rest', relative)
         | _ \<Rightarrow> None)"

text \<open>\<^verbatim>\<open>addPlan(logId, item)\<close>; the foreign key \<^verbatim>\<open>log_id\<close> wants an existing day.\<close>

definition addPlan ::
  "(jsval \<Rightarrow> rat option) \<Rightarrow> string \<Rightarrow> set_item \<Rightarrow> db \<Rightarrow> (error + int) \<times> db" where
  "addPlan rd logId item s =
     (case getExerciseId (it_exercise item) s of
        (Inl e, s1) \<Rightarrow> (Inl e, s1)
      | (Inr exId, s1) \<Rightarrow>
          (case set_columns rd item of
             None \<Rightarrow> (Inl StoreError, s1)
           | Some (order_num, reps, load, rest, relative) \<Rightarrow>
               if \<not> list_ex (\<lambda>d. dl_id d = logId) (daily_logs s1) then (Inl StoreError, s1)
               else let i = planned_sets_seq s1 + 1
                    in (Inr i,
                        s1\<lparr>planned_sets := planned_sets s1 @
                              [\<lparr>ps_id = i, ps_log_id = logId, ps_exercise_id = exId,
                                ps_order_num = order_num, ps_reps = reps, ps_load = load,
                                ps_rest = rest, ps_relative = relative\<rparr>],
                            planned_sets_seq := i\<rparr>)))"

text \<open>\<^verbatim>\<open>updatePlan(id, item)\<close>\<close>

definition updatePlan ::
  "(jsval \<Rightarrow> rat option) \<Rightarrow> int \<Rightarrow> set_item \<Rightarrow> db \<Rightarrow> (error + unit) \<times> db" where
  "updatePlan rd i item s =
     (case getExerciseId (it_exercise item) s of
        (Inl e, s1) \<Rightarrow> (Inl e, s1)
      | (Inr exId, s1) \<Rightarrow>
          (case set_columns rd item of
             None \<Rightarrow> (Inl StoreError, s1)
           | Some (order_num, reps, load, rest, relative) \<Rightarrow>
               (Inr (),
                s1\<lparr>planned_sets :=
                      map (\<lambda>p. if ps_id p = i
                                then p\<lparr>ps_exercise_id := exId, ps_order_num := order_num,
                                       ps_reps := reps, ps_load := load, ps_rest := rest,
                                       ps_relative := relative\<rparr>
                                else p)
                        (planned_sets s1)\<rparr>)))"

text \<open>\<^verbatim>\<open>addSplit(dayOfWeek, item)\<close>, the weekday index being the number that the route
  read from the path.\<close>

definition addSplit ::
  "(jsval \<Rightarrow> rat option) \<Rightarrow> int \<Rightarrow> set_item \<Rightarrow> db \<Rightarrow> (error + int) \<times> db" where
  "addSplit rd dayOfWeek item s =
     (case getExerciseId (it_exercise item) s of
        (Inl e, s1) \<Rightarrow> (Inl e, s1)
      | (Inr exId, s1) \<Rightarrow>
          (case set_columns rd item of
             None \<Rightarrow> (Inl StoreError, s1)
           | Some (order_num, reps, load, rest, relative) \<Rightarrow>
               if \<not> in_int4 dayOfWeek then (Inl StoreError, s1)
               else let i = split_sets_seq s1 + 1
                    in (Inr i,
                        s1\<lparr>split_sets := split_sets s1 @
                              [\<lparr>ss_id = i, ss_day_of_week = dayOfWeek, ss_exercise_id = exId,
                                ss_order_num = order_num, ss_reps = reps, ss_load = load,
                                ss_rest = rest, ss_relative = relative\<rparr>],
                            split_sets_seq := i\<rparr>)))"

text \<open>The parameters \<^verbatim>\<open>item.planned_set_id || null, item.reps_done, item.load_done\<close>
  of \<^verbatim>\<open>addCompleted\<close>, all three nullable.\<close>

definition completed_columns ::
  "(jsval \<Rightarrow> rat option) \<Rightarrow> completed_item \<Rightarrow> (int option \<times> int option \<times> rat option) option"
  where
  "completed_columns rd item =
     (case (nullable (int4 (js_or (ci_planned_set_id item) JNull)),
            nullable (int4 (ci_reps_done item)), nullable (float4 rd (ci_load_done item))) of
        (Some planned_set_id, Some reps_done, Some load_done) \<Rightarrow>
          Some (planned_set_id, reps_done, load_done)
      | _ \<Rightarrow> None)"

text \<open>\<^verbatim>\<open>addCompleted(logId, item)\<close>; the foreign keys want an existing day and, when
  the set is linked, an existing planned set.\<close>

definition addCompleted ::
  "(jsval \<Rightarrow> rat option) \<Rightarrow> string \<Rightarrow> completed_item \<Rightarrow> db \<Rightarrow> (error + int) \<times> db" where
  "addCompleted rd logId item s =
     (case getExerciseId (ci_exercise item) s of
        (Inl e, s1) \<Rightarrow> (Inl e, s1)
      | (Inr exId, s1) \<Rightarrow>
          (case completed_columns rd item of
             None \<Rightarrow> (Inl StoreError, s1)
           | Some (planned_set_id, reps_done, load_done) \<Rightarrow>
               if \<not> list_ex (\<lambda>d. dl_id d = logId) (daily_logs s1)
                  \<or> (case planned_set_id of
                        None \<Rightarrow> False
                      | Some p \<Rightarrow> \<not> list_ex (\<lambda>ps. ps_id ps = p) (planned_sets s1))
               then (Inl StoreError, s1)
               else let i = completed_sets_seq s1 + 1
                    in (Inr i,
                        s1\<lparr>completed_sets := completed_sets s1 @
                              [\<lparr>cs_id = i, cs_log_id = logId, cs_exercise_id = exId,
                                cs_planned_set_id = planned_set_id, cs_reps_done = reps_done,
                                cs_load_done = load_done, cs_completed_at = now s1\<rparr>],
                            completed_sets_seq := i\<rparr>)))"

subsection \<open>The completion route\<close>

datatype completed_response =
  CompletedSet int string "int option" "rat option" int
| IdOnly int

text \<open>
  \<^verbatim>\<open>POST /api/days/:id/completed\<close>: read the day, keep the head of its plan as
  \<^verbatim>\<open>nextSet\<close>, record the completed set, set the timer to \<^verbatim>\<open>nextSet.rest\<close> when that
  is truthy, read the day again for the answer. An unknown day makes
  \<^verbatim>\<open>dayData.plan\<close> a \<^verbatim>\<open>TypeError\<close>; any error is answered with status 500.
\<close>

definition post_completed ::
  "(jsval \<Rightarrow> rat option) \<Rightarrow> string \<Rightarrow> completed_item \<Rightarrow> db
     \<Rightarrow> (error + completed_response) \<times> db" where
  "post_completed rd logId body s =
     (case getDay logId s of
        (Inl e, s1) \<Rightarrow> (Inl e, s1)
      | (Inr None, s1) \<Rightarrow> (Inl TypeError, s1)
      | (Inr (Some dayData), s1) \<Rightarrow>
          (let nextSet = (case dv_plan dayData of [] \<Rightarrow> None | p # _ \<Rightarrow> Some p)
           in case addCompleted rd logId body s1 of
                (Inl e, s2) \<Rightarrow> (Inl e, s2)
              | (Inr i, s2) \<Rightarrow>
                  (let s3 = (case nextSet of
                               None \<Rightarrow> s2
                             | Some p \<Rightarrow>
                                 if pl_rest p \<noteq> 0 then setTimerSeconds (pl_rest p) s2 else s2)
                   in case getDay logId s3 of
                        (Inl e, s4) \<Rightarrow> (Inl e, s4)
                      | (Inr None, s4) \<Rightarrow> (Inl TypeError, s4)
                      | (Inr (Some updatedDayData), s4) \<Rightarrow>
                          (case filter (\<lambda>c. cr_id c = i) (dv_completed updatedDayData) of
                             [] \<Rightarrow> (Inr (IdOnly i), s4)
                           | c # _ \<Rightarrow>
                               (Inr (CompletedSet (cr_id c) (cr_exercise c) (cr_reps_done c)
                                       (cr_load_done c) (cr_completed_at c)), s4)))))"

subsection \<open>Tracked exercises\<close>

text \<open>\<^verbatim>\<open>getTrackedExercises()\<close>, \<^verbatim>\<open>addTrackedExercise(exercise)\<close> (the column holds 255
  characters; a name that is there already is left alone) and
  \<^verbatim>\<open>removeTrackedExercise(exercise)\<close>.\<close>

definition getTrackedExercises :: "db \<Rightarrow> string list" where
  "getTrackedExercises s = sort (tracked_exercises s)"

definition addTrackedExercise :: "string \<Rightarrow> db \<Rightarrow> (error + unit) \<times> db" where
  "addTrackedExercise exercise s =
     (if length exercise > 255 then (Inl StoreError, s)
      else if exercise \<in> set (tracked_exercises s) then (Inr (), s)
      else (Inr (), s\<lparr>tracked_exercises := tracked_exercises s @ [exercise]\<rparr>))"

definition removeTrackedExercise :: "string \<Rightarrow> db \<Rightarrow> (error + unit) \<times> db" where
  "removeTrackedExercise exercise s =
     (Inr (), s\<lparr>tracked_exercises := filter (\<lambda>x. x \<noteq> exercise) (tracked_exercises s)\<rparr>)"

subsection \<open>The PR tracker (\<^verbatim>\<open>PRTracker.jsx\<close>) and its routes\<close>

text \<open>The routes \<^verbatim>\<open>GET /api/prs\<close>, \<^verbatim>\<open>GET /api/tracked-exercises\<close>,
  \<^verbatim>\<open>POST /api/tracked-exercises\<close> and \<^verbatim>\<open>DELETE /api/tracked-exercises\<close>: each calls one
  function of \<^verbatim>\<open>db.js\<close> and answers with its result, or with status 500.\<close>

definition get_api_prs :: "db \<Rightarrow> (error + (string \<times> pr list) list) \<times> db" where
  "get_api_prs s = (getPRs s, s)"

definition get_api_tracked_exercises :: "db \<Rightarrow> (error + string list) \<times> db" where
  "get_api_tracked_exercises s = (Inr (getTrackedExercises s), s)"

definition post_api_tracked_exercises :: "string \<Rightarrow> db \<Rightarrow> (error + unit) \<times> db" where
  "post_api_tracked_exercises exercise s = addTrackedExercise exercise s"

definition delete_api_tracked_exercises :: "string \<Rightarrow> db \<Rightarrow> (error + unit) \<times> db" where
  "delete_api_tracked_exercises exercise s = removeTrackedExercise exercise s"

text \<open>The state of the component: the displayed PRs, the error message, the tracked
  exercises and the text of the input field.\<close>

record tracker =
  tk_prs :: "(string \<times> shown_pr list) list"
  tk_error :: "string option"
  tk_trackedExercises :: "string list"
  tk_newTrackedExercise :: string

text \<open>
  The functions of the component, each on the store and the component's state.
  \<^verbatim>\<open>loadPRs\<close> shows \<^verbatim>\<open>processPRs\<close> of the response, or the error of a response that
  is not ok; \<^verbatim>\<open>loadTrackedExercises\<close> shows the response; \<^verbatim>\<open>addTrackedExercise\<close> does
  nothing when the trimmed input is empty, else posts it, clears the input and reloads;
  \<^verbatim>\<open>removeTrackedExercise\<close> deletes and reloads. The last is the effect on mounting.
  These are all the requests that the component sends.
\<close>

definition loadPRs :: "db \<times> tracker \<Rightarrow> db \<times> tracker" where
  "loadPRs = (\<lambda>(s, c).
     case get_api_prs s of
       (Inl e, s1) \<Rightarrow> (s1, c\<lparr>tk_error := Some ''HTTP 500''\<rparr>)
     | (Inr data, s1) \<Rightarrow> (s1, c\<lparr>tk_prs := processPRs data, tk_error := None\<rparr>))"

definition loadTrackedExercises :: "db \<times> tracker \<Rightarrow> db \<times> tracker" where
  "loadTrackedExercises = (\<lambda>(s, c).
     case get_api_tracked_exercises s of
       (Inl e, s1) \<Rightarrow> (s1, c)
     | (Inr data, s1) \<Rightarrow> (s1, c\<lparr>tk_trackedExercises := data\<rparr>))"

definition PRTracker_addTrackedExercise :: "db \<times> tracker \<Rightarrow> db \<times> tracker" where
  "PRTracker_addTrackedExercise = (\<lambda>(s, c).
     if trim (tk_newTrackedExercise c) = [] then (s, c)
     else let (r, s1) = post_api_tracked_exercises (trim (tk_newTrackedExercise c)) s
          in loadPRs (loadTrackedExercises (s1, c\<lparr>tk_newTrackedExercise := []\<rparr>)))"

definition PRTracker_removeTrackedExercise :: "string \<Rightarrow> db \<times> tracker \<Rightarrow> db \<times> tracker" where
  "PRTracker_removeTrackedExercise exercise = (\<lambda>(s, c).
     let (r, s1) = delete_api_tracked_exercises exercise s
     in loadPRs (loadTrackedExercises (s1, c)))"

definition PRTracker_mount :: "db \<times> tracker \<Rightarrow> db \<times> tracker" where
  "PRTracker_mount sc = loadTrackedExercises (loadPRs sc)"

subsection \<open>Example states\<close>

text \<open>The store as \<^verbatim>\<open>initDb\<close> leaves an empty database: the three default tracked
  exercises and nothing else.\<close>

definition fresh_db :: db where
  "fresh_db =
     \<lparr>exercises = [], exercises_seq = 0, daily_logs = [], planned_sets = [],
      planned_sets_seq = 0, completed_sets = [], completed_sets_seq = 0, split_sets = [],
      split_sets_seq = 0, tracked_exercises = [''Bench Press'', ''Squat'', ''Deadlift''],
      timer = [], timer_seq = 0, now = 0\<rparr>"


text \<open>\<^verbatim>\<open>ensureDay(date)\<close> followed by \<^verbatim>\<open>applySplitIfEmpty(id, date)\<close>, the pair that
  \<^verbatim>\<open>ensureTodayPlan\<close> runs for today's date.\<close>

definition ensureDay_applySplit :: "string \<Rightarrow> int \<Rightarrow> db \<Rightarrow> (error + string) \<times> db" where
  "ensureDay_applySplit uuid dateStr s =
     (case ensureDay uuid dateStr s of
        (Inl e, s1) \<Rightarrow> (Inl e, s1)
      | (Inr logId, s1) \<Rightarrow>
          (case applySplitIfEmpty logId dateStr s1 of
             (Inl e, s2) \<Rightarrow> (Inl e, s2)
           | (Inr u, s2) \<Rightarrow> (Inr logId, s2)))"

text \<open>A store with one exercise and a Saturday template of two relative sets, the first
  with no rest. Day 19000 (2022-01-08) is a Saturday.\<close>

definition template_db :: db where
  "template_db =
     fresh_db\<lparr>exercises := [\<lparr>ex_id = 1, ex_name = ''Squat''\<rparr>], exercises_seq := 1,
       split_sets :=
         [\<lparr>ss_id = 1, ss_day_of_week = 6, ss_exercise_id = 1, ss_order_num = 1, ss_reps = 5,
           ss_load = 80, ss_rest = 0, ss_relative = True\<rparr>,
          \<lparr>ss_id = 2, ss_day_of_week = 6, ss_exercise_id = 1, ss_order_num = 2, ss_reps = 5,
           ss_load = 85, ss_rest = 90, ss_relative = True\<rparr>],
       split_sets_seq := 2\<rparr>"

subsection \<open>Integrity of the store\<close>

text \<open>\<^verbatim>\<open>planned_sets.exercise_id REFERENCES exercises(id)\<close>\<close>

definition exercise_fk :: "db \<Rightarrow> bool" where
  "exercise_fk s =
     list_all (\<lambda>p. list_ex (\<lambda>e. ex_id e = ps_exercise_id p) (exercises s)) (planned_sets s)"

text \<open>A day with one exercise and the queue \<open>[A, B]\<close>: \<open>A\<close> rests 60 seconds and \<open>B\<close> 90.\<close>

definition queue_db :: db where
  "queue_db =
     fresh_db\<lparr>exercises := [\<lparr>ex_id = 1, ex_name = ''Squat''\<rparr>], exercises_seq := 1,
       daily_logs := [\<lparr>dl_id = ''d1'', dl_date = 19000, dl_summary = []\<rparr>],
       planned_sets :=
         [\<lparr>ps_id = 1, ps_log_id = ''d1'', ps_exercise_id = 1, ps_order_num = 1, ps_reps = 5,
           ps_load = 100, ps_rest = 60, ps_relative = False\<rparr>,
          \<lparr>ps_id = 2, ps_log_id = ''d1'', ps_exercise_id = 1, ps_order_num = 2, ps_reps = 5,
           ps_load = 80, ps_rest = 90, ps_relative = True\<rparr>],
       planned_sets_seq := 2, now := 1000\<rparr>"

text \<open>A day with one relative planned set, of an exercise named \<open>Constructor\<close>, and no
  completed set.\<close>

definition constructor_db :: db where
  "constructor_db =
     fresh_db\<lparr>exercises := [\<lparr>ex_id = 1, ex_name = ''Constructor''\<rparr>], exercises_seq := 1,
       daily_logs := [\<lparr>dl_id = ''d1'', dl_date = 19000, dl_summary = []\<rparr>],
       planned_sets :=
         [\<lparr>ps_id = 1, ps_log_id = ''d1'', ps_exercise_id = 1, ps_order_num = 1, ps_reps = 5,
           ps_load = 80, ps_rest = 60, ps_relative = True\<rparr>],
       planned_sets_seq := 1, now := 1000\<rparr>"

text \<open>The request that completes \<open>A\<close>, linked.\<close>

definition complete_A :: completed_item where
  "complete_A =
     \<lparr>ci_exercise = Some ''Squat'', ci_reps_done = JNum 5, ci_load_done = JNum 100,
      ci_planned_set_id = JNum 1\<rparr>"

text \<open>The store after the completion route has recorded that request.\<close>

definition done_db :: db where
  "done_db = snd (post_completed whole_loads ''d1'' complete_A queue_db)"

text \<open>Requests as the UI's forms send them, the numeric inputs as strings: a planned set
  with a rest of \<open>"0"\<close>, one with an empty exercise name, and one whose repetitions are
  not a number.\<close>

definition rest_zero_item :: set_item where
  "rest_zero_item =
     \<lparr>it_exercise = Some ''Squat'', it_order_num = JStr ''3'', it_reps = JStr ''5'',
      it_load = JStr ''100'', it_rest = JStr ''0'', it_relative = JUndefined\<rparr>"

definition empty_name_item :: set_item where
  "empty_name_item =
     \<lparr>it_exercise = Some [], it_order_num = JNum 3, it_reps = JNum 5, it_load = JNum 100,
      it_rest = JNum 60, it_relative = JBool False\<rparr>"

definition bad_reps_item :: set_item where
  "bad_reps_item =
     \<lparr>it_exercise = Some ''Lunge'', it_order_num = JNum 3, it_reps = JStr ''five'',
      it_load = JNum 100, it_rest = JNum 60, it_relative = JBool False\<rparr>"

text \<open>A request that records a completed set under a \<open>planned_set_id\<close> that no planned
  set has.\<close>

definition dangling_item :: completed_item where
  "dangling_item =
     \<lparr>ci_exercise = Some ''Lunge'', ci_reps_done = JNum 5, ci_load_done = JNum 100,
      ci_planned_set_id = JNum 7\<rparr>"

text \<open>The PR tracker before it is mounted.\<close>

definition new_tracker :: tracker where
  "new_tracker =
     \<lparr>tk_prs = [], tk_error = None, tk_trackedExercises = [], tk_newTrackedExercise = []\<rparr>"

section \<open>Properties\<close>

subsection \<open>The one-rep-max estimate\<close>

lemma round_half_even_nonneg: "0 \<le> m \<Longrightarrow> 0 \<le> round_half_even m"
  by (auto simp: round_half_even_def Let_def)

lemma fl_nonneg: "0 \<le> x \<Longrightarrow> 0 \<le> fl x"
proof -
  assume x: "0 \<le> x"
  have u: "(0::rat) < power_int 2 k" for k by (rule zero_less_power_int) simp
  show ?thesis
  proof (cases "x = 0")
    case True
    then show ?thesis by (simp add: fl_def)
  next
    case False
    let ?ulp = "power_int 2 (floor_log2 \<bar>x\<bar> - 52) :: rat"
    have "0 \<le> x / ?ulp" using x u [of "floor_log2 \<bar>x\<bar> - 52"] by simp
    then have "0 \<le> round_half_even (x / ?ulp)" by (rule round_half_even_nonneg)
    then have "0 \<le> (of_int (round_half_even (x / ?ulp)) :: rat) * ?ulp"
      using u [of "floor_log2 \<bar>x\<bar> - 52"] by simp
    with False show ?thesis by (simp add: fl_def Let_def)
  qed
qed

lemma estimate1RM_nonneg: "0 < pr_reps r \<Longrightarrow> 0 < pr_maxLoad r \<Longrightarrow> 0 \<le> estimate1RM r"
proof -
  assume r: "0 < pr_reps r" and l: "0 < pr_maxLoad r"
  have a: "0 \<le> fdiv (of_int (pr_reps r)) 30" unfolding fdiv_def using r by (intro fl_nonneg) simp
  have b: "0 \<le> fadd 1 (fdiv (of_int (pr_reps r)) 30)" unfolding fadd_def using a by (intro fl_nonneg) simp
  have "0 \<le> fmul (pr_maxLoad r) (fadd 1 (fdiv (of_int (pr_reps r)) 30))"
    unfolding fmul_def using b l by (intro fl_nonneg) simp
  with l show ?thesis by (simp add: estimate1RM_def)
qed

lemma oneRepMax_fold:
  "fold (\<lambda>r mx. let est = estimate1RM r in if est > mx then est else mx) rs m
     = Max (insert m (estimate1RM ` set rs))"
proof (induction rs arbitrary: m)
  case Nil
  then show ?case by simp
next
  case (Cons r rs)
  have step: "(let est = estimate1RM r in if est > m then est else m) = max m (estimate1RM r)"
    by (simp add: Let_def max_def)
  have "Max (insert (max m (estimate1RM r)) (estimate1RM ` set rs))
          = Max (insert m (insert (estimate1RM r) (estimate1RM ` set rs)))"
  proof (cases "set rs = {}")
    case True
    then show ?thesis by (simp add: max.commute)
  next
    case False
    then show ?thesis by (simp add: max.assoc)
  qed
  with Cons step show ?case by simp
qed

text \<open>
  Claim C6, as the code has it. For the PR records of an exercise (repetitions and load
  positive, which \<^verbatim>\<open>getPRs\<close> guarantees), the estimated one-rep max is the greatest
  of the estimates \<open>maxLoad\<close> (one repetition) or \<open>maxLoad * (1 + reps / 30)\<close>, and 0
  when there is no record. Records \<open>{(1,100)}\<close> give 100 and \<open>{(5,90)}\<close> give 105; records
  \<open>{(1,100),(5,90)}\<close> give 105, the greater of the two estimates.
\<close>

theorem oneRepMax_is_max_estimate:
  assumes "\<forall>r \<in> set rs. 0 < pr_reps r \<and> 0 < pr_maxLoad r"
  shows "oneRepMax rs = (if rs = [] then 0 else Max (estimate1RM ` set rs))
     \<and> oneRepMax [\<lparr>pr_reps = 1, pr_maxLoad = 100\<rparr>] = 100
     \<and> oneRepMax [\<lparr>pr_reps = 5, pr_maxLoad = 90\<rparr>] = 105
     \<and> oneRepMax [\<lparr>pr_reps = 1, pr_maxLoad = 100\<rparr>, \<lparr>pr_reps = 5, pr_maxLoad = 90\<rparr>] = 105"
proof -
  have gen: "oneRepMax rs = (if rs = [] then 0 else Max (estimate1RM ` set rs))"
  proof (cases "rs = []")
    case True
    then show ?thesis by (simp add: oneRepMax_def)
  next
    case False
    then obtain r where r: "r \<in> set rs" by (cases rs) auto
    with assms have "0 \<le> estimate1RM r" by (simp add: estimate1RM_nonneg)
    moreover have "estimate1RM r \<le> Max (estimate1RM ` set rs)" using r by simp
    ultimately have "0 \<le> Max (estimate1RM ` set rs)" by linarith
    moreover have "Max (insert 0 (estimate1RM ` set rs)) = max 0 (Max (estimate1RM ` set rs))"
      using False by simp
    ultimately show ?thesis using False
      by (simp add: oneRepMax_def oneRepMax_fold)
  qed
  have e1: "oneRepMax [\<lparr>pr_reps = 1, pr_maxLoad = 100\<rparr>] = 100" by code_simp
  have e2: "oneRepMax [\<lparr>pr_reps = 5, pr_maxLoad = 90\<rparr>] = 105" by code_simp
  have e3: "oneRepMax [\<lparr>pr_reps = 1, pr_maxLoad = 100\<rparr>, \<lparr>pr_reps = 5, pr_maxLoad = 90\<rparr>] = 105"
    by code_simp
  from gen e1 e2 e3 show ?thesis by simp
qed

theorem oneRepMax_is_max_estimate_witness:
  "oneRepMax [\<lparr>pr_reps = 3, pr_maxLoad = 100\<rparr>, \<lparr>pr_reps = 6, pr_maxLoad = 95\<rparr>] = 114"
proof -
  have h: "\<forall>r \<in> set [\<lparr>pr_reps = 3, pr_maxLoad = 100\<rparr>, \<lparr>pr_reps = 6, pr_maxLoad = 95\<rparr>].
             0 < pr_reps r \<and> 0 < pr_maxLoad r" by simp
  have a: "estimate1RM \<lparr>pr_reps = 3, pr_maxLoad = 100\<rparr> \<le> 114" by code_simp
  have b: "estimate1RM \<lparr>pr_reps = 6, pr_maxLoad = 95\<rparr> = 114" by code_simp
  have "Max (estimate1RM ` set [\<lparr>pr_reps = 3, pr_maxLoad = 100\<rparr>, \<lparr>pr_reps = 6, pr_maxLoad = (95::rat)\<rparr>]) = 114"
    using a b by (simp add: max_def)
  with oneRepMax_is_max_estimate [OF h] show ?thesis by simp
qed

text \<open>Claim C6 as stated has the records \<open>{(1,100),(5,90)}\<close> give 100; the loop gives
  105, the estimate from the five repetitions.\<close>

theorem oneRepMax_true_single_counterexample:
  "oneRepMax [\<lparr>pr_reps = 1, pr_maxLoad = 100\<rparr>, \<lparr>pr_reps = 5, pr_maxLoad = 90\<rparr>] = 105
   \<and> oneRepMax [\<lparr>pr_reps = 1, pr_maxLoad = 100\<rparr>, \<lparr>pr_reps = 5, pr_maxLoad = 90\<rparr>] \<noteq> 100"
  by code_simp

subsection \<open>The timer's status\<close>

lemma getTimerStatus_is_number:
  "\<exists>n. ts_remainingSeconds (getTimerStatus s) = JNum n \<and> 0 \<le> n"
  by (simp add: getTimerStatus_def Let_def split: list.splits)

lemma get_api_timer_status:
  "tr_status (get_api_timer s) =
     (case rev (sort_key tm_id (timer s)) of
        [] \<Rightarrow> expired
      | row # _ \<Rightarrow> if tm_end_time row - now s > 0 then running else expired)"
  by (simp add: get_api_timer_def getTimerStatus_def Let_def split: list.splits)

lemma get_api_timer_never_no_timer: "tr_status (get_api_timer s) \<noteq> no_timer"
  by (simp add: get_api_timer_status split: list.splits)

text \<open>
  Claim C2 has the status \<open>no_timer\<close> exactly when no timer row exists. With no row,
  \<^verbatim>\<open>getTimerStatus\<close> returns \<^verbatim>\<open>remainingSeconds: 0\<close>, a number, so the route
  overwrites its initial \<open>no_timer\<close> and answers \<open>expired\<close>: on the store that
  \<^verbatim>\<open>initDb\<close> leaves, where no timer was ever set, the status is \<open>expired\<close>.
\<close>

theorem get_api_timer_without_row:
  "timer fresh_db = [] \<and> tr_status (get_api_timer fresh_db) = expired"
  by (simp add: fresh_db_def get_api_timer_status)

lemma timer_after_set:
  "get_api_timer (advance n (setTimerSeconds secs s)) =
     \<lparr>tr_status = (if n < max 0 secs then running else expired),
      tr_remaining_seconds = of_int (max 0 (max 0 secs - n)),
      tr_ends_at = Some (now s + max 0 secs)\<rparr>"
  by (simp add: get_api_timer_def getTimerStatus_def setTimerSeconds_def advance_def Let_def js_or_def)

subsection \<open>The displayed PR list\<close>

lemma sort_key_hd_least:
  assumes "sort_key f xs = y # ys"
  shows "y \<in> set xs \<and> (\<forall>x \<in> set xs. f y \<le> f x)"
proof -
  have s: "sorted (map f (y # ys))" using assms sorted_sort_key [of f xs] by simp
  have m: "set (y # ys) = set xs" using assms set_sort [of f xs] by simp
  from m have "y \<in> set xs" by auto
  moreover have "\<forall>x \<in> set (y # ys). f y \<le> f x" using s by auto
  ultimately show ?thesis unfolding m by simp
qed

lemma update_fresh: "k \<notin> fst ` set al \<Longrightarrow> AList.update k v al = al @ [(k, v)]"
  by (induction al) auto

lemma fold_assign_property:
  assumes "distinct (map fst data)" "''__proto__'' \<notin> fst ` set data"
    "fst ` set data \<inter> fst ` set acc = {}"
  shows "fold (\<lambda>(k, v) processed. assign_property processed k (f v)) data acc
           = acc @ map (\<lambda>(k, v). (k, f v)) data"
  using assms
proof (induction data arbitrary: acc)
  case Nil
  then show ?case by simp
next
  case (Cons x data)
  obtain k v where x: "x = (k, v)" by (cases x)
  from Cons.prems x have k: "k \<noteq> ''__proto__''" "k \<notin> fst ` set acc" "k \<notin> fst ` set data"
    by auto
  have step: "assign_property acc k (f v) = acc @ [(k, f v)]"
    using k by (simp add: assign_property_def update_fresh)
  have d: "distinct (map fst data)" "''__proto__'' \<notin> fst ` set data"
    using Cons.prems by auto
  have i: "fst ` set data \<inter> fst ` set (acc @ [(k, f v)]) = {}"
    using Cons.prems k by auto
  from Cons.IH [OF d i] show ?case by (simp add: x step)
qed

lemma processPRs_entries:
  assumes "distinct (map fst data)" "''__proto__'' \<notin> fst ` set data"
  shows "processPRs data = map (\<lambda>(exercise, prList). (exercise, processPRList prList)) data"
  unfolding processPRs_def using fold_assign_property [OF assms, of "[]" processPRList] by simp

lemma loadPRs_store [simp]: "fst (loadPRs (s, c)) = s"
  by (simp add: loadPRs_def get_api_prs_def split: sum.splits)

lemma loadTrackedExercises_store [simp]: "fst (loadTrackedExercises (s, c)) = s"
  by (simp add: loadTrackedExercises_def get_api_tracked_exercises_def)

lemma loadPRs_store': "fst (loadPRs sc) = fst sc"
  by (cases sc) simp

lemma loadTrackedExercises_store': "fst (loadTrackedExercises sc) = fst sc"
  by (cases sc) simp

lemma PRTracker_mount_store: "fst (PRTracker_mount (s, c)) = s"
  by (simp add: PRTracker_mount_def loadPRs_store' loadTrackedExercises_store')

lemma PRTracker_addTrackedExercise_store:
  "\<exists>t. fst (PRTracker_addTrackedExercise (s, c)) = s\<lparr>tracked_exercises := t\<rparr>"
proof (cases "trim (tk_newTrackedExercise c) = []")
  case True
  then have "fst (PRTracker_addTrackedExercise (s, c)) = s\<lparr>tracked_exercises := tracked_exercises s\<rparr>"
    by (simp add: PRTracker_addTrackedExercise_def)
  then show ?thesis by blast
next
  case False
  let ?e = "trim (tk_newTrackedExercise c)"
  have "fst (PRTracker_addTrackedExercise (s, c)) = snd (addTrackedExercise ?e s)"
    using False
    by (simp add: PRTracker_addTrackedExercise_def post_api_tracked_exercises_def
        loadPRs_store' loadTrackedExercises_store' split_beta)
  moreover have "\<exists>t. snd (addTrackedExercise ?e s) = s\<lparr>tracked_exercises := t\<rparr>"
  proof (cases "length ?e > 255 \<or> ?e \<in> set (tracked_exercises s)")
    case True
    then have "snd (addTrackedExercise ?e s) = s\<lparr>tracked_exercises := tracked_exercises s\<rparr>"
      by (auto simp: addTrackedExercise_def)
    then show ?thesis by blast
  next
    case False
    then have "snd (addTrackedExercise ?e s) = s\<lparr>tracked_exercises := tracked_exercises s @ [?e]\<rparr>"
      by (auto simp: addTrackedExercise_def)
    then show ?thesis by blast
  qed
  ultimately show ?thesis by simp
qed

lemma PRTracker_removeTrackedExercise_store:
  "\<exists>t. fst (PRTracker_removeTrackedExercise exercise (s, c)) = s\<lparr>tracked_exercises := t\<rparr>"
proof -
  have "fst (PRTracker_removeTrackedExercise exercise (s, c))
          = s\<lparr>tracked_exercises := filter (\<lambda>x. x \<noteq> exercise) (tracked_exercises s)\<rparr>"
    by (simp add: PRTracker_removeTrackedExercise_def delete_api_tracked_exercises_def
        removeTrackedExercise_def loadPRs_store' loadTrackedExercises_store' split_beta)
  then show ?thesis by blast
qed

lemma loadPRs_shows:
  "getPRs s = Inr prs \<Longrightarrow> loadPRs (s, c) = (s, c\<lparr>tk_prs := processPRs prs, tk_error := None\<rparr>)"
  by (simp add: loadPRs_def get_api_prs_def)

text \<open>
  Claim C9. What the PR tracker shows is \<^verbatim>\<open>processPRs\<close> of the response of
  \<^verbatim>\<open>GET /api/prs\<close>: for each exercise of the response, under its name, the processed
  list of its records. For the records of an exercise that is: when a record of one
  repetition is among them, the records sorted by repetitions, nothing added; when none
  is and the list is not empty, the sorted records behind one synthesized entry of one
  repetition, flagged estimated, whose load is \<^verbatim>\<open>Math.round(load * (1 + reps / 30))\<close>
  of a record of the fewest repetitions (the head of the sorted list). The sorted list
  is ascending and holds the records themselves. The synthesized entry is never written
  back: loading the PRs and mounting the component leave the store as it is, and adding
  or removing a tracked exercise, the only other requests of the component, change no
  table but \<^verbatim>\<open>tracked_exercises\<close>.
\<close>

theorem processPRs_presentation:
  "(distinct (map fst data) \<and> ''__proto__'' \<notin> fst ` set data \<longrightarrow>
      processPRs data = map (\<lambda>(exercise, prList). (exercise, processPRList prList)) data)
   \<and> (list_ex (\<lambda>p. pr_reps p = 1) rs \<longrightarrow> processPRList rs = map shown (sort_key pr_reps rs))
   \<and> (\<not> list_ex (\<lambda>p. pr_reps p = 1) rs \<and> rs \<noteq> [] \<longrightarrow>
        (\<exists>lowest \<in> set rs. (\<forall>r \<in> set rs. pr_reps lowest \<le> pr_reps r)
           \<and> processPRList rs =
               \<lparr>sp_reps = 1,
                sp_maxLoad = of_int (js_round (fmul (pr_maxLoad lowest)
                                (fadd 1 (fdiv (of_int (pr_reps lowest)) 30)))),
                sp_estimated = True\<rparr> # map shown (sort_key pr_reps rs)))
   \<and> (rs = [] \<longrightarrow> processPRList rs = [])
   \<and> sorted (map pr_reps (sort_key pr_reps rs))
   \<and> mset (sort_key pr_reps rs) = mset rs
   \<and> (getPRs s = Inr prs \<longrightarrow>
        loadPRs (s, c) = (s, c\<lparr>tk_prs := processPRs prs, tk_error := None\<rparr>))
   \<and> fst (loadPRs (s, c)) = s
   \<and> fst (PRTracker_mount (s, c)) = s
   \<and> (\<exists>t. fst (PRTracker_addTrackedExercise (s, c)) = s\<lparr>tracked_exercises := t\<rparr>)
   \<and> (\<exists>t. fst (PRTracker_removeTrackedExercise exercise (s, c)) = s\<lparr>tracked_exercises := t\<rparr>)"
proof -
  have ex: "list_ex (\<lambda>p. pr_reps p = 1) (sort_key pr_reps rs) = list_ex (\<lambda>p. pr_reps p = 1) rs"
    by (simp add: list_ex_iff)
  have a: "processPRList rs = map shown (sort_key pr_reps rs)"
    if one: "list_ex (\<lambda>p. pr_reps p = 1) rs"
  proof (cases "sort_key pr_reps rs")
    case Nil
    then show ?thesis by (simp add: processPRList_def)
  next
    case (Cons y ys)
    from one ex have "list_ex (\<lambda>p. pr_reps p = 1) (sort_key pr_reps rs)" by simp
    then show ?thesis unfolding processPRList_def Let_def by (simp add: Cons)
  qed
  have b: "\<exists>lowest \<in> set rs. (\<forall>r \<in> set rs. pr_reps lowest \<le> pr_reps r)
           \<and> processPRList rs =
               \<lparr>sp_reps = 1,
                sp_maxLoad = of_int (js_round (fmul (pr_maxLoad lowest)
                                (fadd 1 (fdiv (of_int (pr_reps lowest)) 30)))),
                sp_estimated = True\<rparr> # map shown (sort_key pr_reps rs)"
    if no: "\<not> list_ex (\<lambda>p. pr_reps p = 1) rs" and ne: "rs \<noteq> []"
  proof -
    from ne have "sort_key pr_reps rs \<noteq> []"
      by (metis length_sort length_0_conv)
    then obtain y ys where y: "sort_key pr_reps rs = y # ys" by (cases "sort_key pr_reps rs") auto
    from sort_key_hd_least [OF y] have least: "y \<in> set rs" "\<forall>r \<in> set rs. pr_reps y \<le> pr_reps r"
      by auto
    have "processPRList rs =
            \<lparr>sp_reps = 1,
             sp_maxLoad = of_int (js_round (fmul (pr_maxLoad y)
                             (fadd 1 (fdiv (of_int (pr_reps y)) 30)))),
             sp_estimated = True\<rparr> # map shown (sort_key pr_reps rs)"
      using no ex y by (simp add: processPRList_def Let_def computeEstimated1RM_def)
    with least show ?thesis by blast
  qed
  have c: "rs = [] \<longrightarrow> processPRList rs = []" by (simp add: processPRList_def)
  have d: "distinct (map fst data) \<and> ''__proto__'' \<notin> fst ` set data \<longrightarrow>
      processPRs data = map (\<lambda>(exercise, prList). (exercise, processPRList prList)) data"
    using processPRs_entries [of data] by blast
  have e: "getPRs s = Inr prs \<longrightarrow>
        loadPRs (s, c) = (s, c\<lparr>tk_prs := processPRs prs, tk_error := None\<rparr>)"
    using loadPRs_shows [of s prs c] by blast
  have f: "sorted (map pr_reps (sort_key pr_reps rs))" by (rule sorted_sort_key)
  have g: "mset (sort_key pr_reps rs) = mset rs" by simp
  from a have a': "list_ex (\<lambda>p. pr_reps p = 1) rs \<longrightarrow> processPRList rs = map shown (sort_key pr_reps rs)"
    by blast
  from b have b': "\<not> list_ex (\<lambda>p. pr_reps p = 1) rs \<and> rs \<noteq> [] \<longrightarrow>
        (\<exists>lowest \<in> set rs. (\<forall>r \<in> set rs. pr_reps lowest \<le> pr_reps r)
           \<and> processPRList rs =
               \<lparr>sp_reps = 1,
                sp_maxLoad = of_int (js_round (fmul (pr_maxLoad lowest)
                                (fadd 1 (fdiv (of_int (pr_reps lowest)) 30)))),
                sp_estimated = True\<rparr> # map shown (sort_key pr_reps rs))"
    by blast
  show ?thesis
    by (intro conjI)
       (fact d a' b' c f g e loadPRs_store PRTracker_mount_store
          PRTracker_addTrackedExercise_store PRTracker_removeTrackedExercise_store)+
qed

theorem processPRs_presentation_witness:
  "processPRs [(''squat'', [\<lparr>pr_reps = 8, pr_maxLoad = 100\<rparr>, \<lparr>pr_reps = 5, pr_maxLoad = 90\<rparr>]),
               (''bench press'', [\<lparr>pr_reps = 5, pr_maxLoad = 90\<rparr>, \<lparr>pr_reps = 1, pr_maxLoad = 100\<rparr>])] =
     [(''squat'', [\<lparr>sp_reps = 1, sp_maxLoad = 105, sp_estimated = True\<rparr>,
                   \<lparr>sp_reps = 5, sp_maxLoad = 90, sp_estimated = False\<rparr>,
                   \<lparr>sp_reps = 8, sp_maxLoad = 100, sp_estimated = False\<rparr>]),
      (''bench press'', [\<lparr>sp_reps = 1, sp_maxLoad = 100, sp_estimated = False\<rparr>,
                         \<lparr>sp_reps = 5, sp_maxLoad = 90, sp_estimated = False\<rparr>])]
   \<and> loadPRs (done_db, new_tracker) =
       (done_db,
        new_tracker\<lparr>tk_prs := [(''squat'', [\<lparr>sp_reps = 1, sp_maxLoad = 117, sp_estimated = True\<rparr>,
                                             \<lparr>sp_reps = 5, sp_maxLoad = 100, sp_estimated = False\<rparr>])],
          tk_error := None\<rparr>)"
proof -
  let ?sq = "[\<lparr>pr_reps = 8, pr_maxLoad = 100\<rparr>, \<lparr>pr_reps = 5, pr_maxLoad = 90\<rparr>]"
  let ?bp = "[\<lparr>pr_reps = 5, pr_maxLoad = 90\<rparr>, \<lparr>pr_reps = 1, pr_maxLoad = 100\<rparr>]"
  let ?data = "[(''squat'', ?sq), (''bench press'', ?bp)]"
  let ?prs = "[(''squat'', [\<lparr>pr_reps = 5, pr_maxLoad = 100\<rparr>])]"
  note t = processPRs_presentation [where data = ?data and rs = ?bp and s = done_db
      and prs = ?prs and c = new_tracker]
  have keys: "distinct (map fst ?data) \<and> ''__proto__'' \<notin> fst ` set ?data" by simp
  have one: "list_ex (\<lambda>p. pr_reps p = 1) ?bp" by simp
  have sorted: "map shown (sort_key pr_reps ?bp) =
     [\<lparr>sp_reps = 1, sp_maxLoad = 100, sp_estimated = False\<rparr>,
      \<lparr>sp_reps = 5, sp_maxLoad = 90, sp_estimated = False\<rparr>]" by (simp add: shown_def)
  have sq: "processPRList ?sq =
     [\<lparr>sp_reps = 1, sp_maxLoad = 105, sp_estimated = True\<rparr>,
      \<lparr>sp_reps = 5, sp_maxLoad = 90, sp_estimated = False\<rparr>,
      \<lparr>sp_reps = 8, sp_maxLoad = 100, sp_estimated = False\<rparr>]" by code_simp
  have g: "getPRs done_db = Inr ?prs" by code_simp
  have p: "processPRs ?prs = [(''squat'', [\<lparr>sp_reps = 1, sp_maxLoad = 117, sp_estimated = True\<rparr>,
                                           \<lparr>sp_reps = 5, sp_maxLoad = 100, sp_estimated = False\<rparr>])]"
    by code_simp
  from t keys have a: "processPRs ?data = map (\<lambda>(exercise, prList). (exercise, processPRList prList)) ?data"
    by blast
  from t one have b: "processPRList ?bp = map shown (sort_key pr_reps ?bp)" by blast
  from t g have c: "loadPRs (done_db, new_tracker)
      = (done_db, new_tracker\<lparr>tk_prs := processPRs ?prs, tk_error := None\<rparr>)" by blast
  from a b sorted sq c p show ?thesis by simp
qed

subsection \<open>The logical date\<close>
















lemma decimal_two: "decimal [a, b] = 10 * digit_val a + digit_val b"
  by (simp add: decimal_def)









lemma sign_not_digit: "\<not> is_digit CHR ''-''" "\<not> is_digit CHR ''+''"
  by (simp_all add: is_digit_def less_eq_char_def)





subsection \<open>Materializing a day\<close>

lemma ensureTodayPlan_eq:
  "ensureTodayPlan uuid m tz s = ensureDay_applySplit uuid (getTodayInEst m tz (now s)) s"
  by (simp add: ensureTodayPlan_def ensureDay_applySplit_def Let_def)

lemma getPRs_cong:
  "tracked_exercises s' = tracked_exercises s \<Longrightarrow> exercises s' = exercises s \<Longrightarrow>
   completed_sets s' = completed_sets s \<Longrightarrow> getPRs s' = getPRs s"
  by (simp add: getPRs_def pr_rows_def pr_candidates_def)

lemma clone_rows_frame [simp]:
  "exercises (clone_rows logId rows s) = exercises s"
  "exercises_seq (clone_rows logId rows s) = exercises_seq s"
  "daily_logs (clone_rows logId rows s) = daily_logs s"
  "completed_sets (clone_rows logId rows s) = completed_sets s"
  "completed_sets_seq (clone_rows logId rows s) = completed_sets_seq s"
  "split_sets (clone_rows logId rows s) = split_sets s"
  "split_sets_seq (clone_rows logId rows s) = split_sets_seq s"
  "tracked_exercises (clone_rows logId rows s) = tracked_exercises s"
  "timer (clone_rows logId rows s) = timer s"
  "timer_seq (clone_rows logId rows s) = timer_seq s"
  "now (clone_rows logId rows s) = now s"
  by (induction rows arbitrary: s) (simp_all add: Let_def)

text \<open>The planned set that the loop makes of a template row, given its key.\<close>

lemma clone_rows_planned:
  "\<exists>new. planned_sets (clone_rows logId rows s) = planned_sets s @ new
     \<and> length new = length rows
     \<and> list_all (\<lambda>p. ps_log_id p = logId) new
     \<and> map ps_exercise_id new = map ss_exercise_id rows
     \<and> map ps_order_num new = map ss_order_num rows
     \<and> map ps_reps new = map ss_reps rows
     \<and> map ps_load new = map ss_load rows
     \<and> map ps_rest new = map ss_rest rows
     \<and> map ps_relative new = map ss_relative rows
     \<and> map ps_id new = map (\<lambda>k. planned_sets_seq s + 1 + int k) [0..<length rows]
     \<and> planned_sets_seq (clone_rows logId rows s) = planned_sets_seq s + int (length rows)"
proof (induction rows arbitrary: s)
  case Nil
  then show ?case by simp
next
  case (Cons row rows)
  let ?p = "\<lparr>ps_id = planned_sets_seq s + 1, ps_log_id = logId,
             ps_exercise_id = ss_exercise_id row, ps_order_num = ss_order_num row,
             ps_reps = ss_reps row, ps_load = ss_load row, ps_rest = ss_rest row,
             ps_relative = ss_relative row\<rparr>"
  let ?s = "s\<lparr>planned_sets := planned_sets s @ [?p], planned_sets_seq := planned_sets_seq s + 1\<rparr>"
  from Cons.IH [of ?s] obtain new where new:
    "planned_sets (clone_rows logId rows ?s) = planned_sets ?s @ new"
    "length new = length rows"
    "list_all (\<lambda>p. ps_log_id p = logId) new"
    "map ps_exercise_id new = map ss_exercise_id rows"
    "map ps_order_num new = map ss_order_num rows"
    "map ps_reps new = map ss_reps rows"
    "map ps_load new = map ss_load rows"
    "map ps_rest new = map ss_rest rows"
    "map ps_relative new = map ss_relative rows"
    "map ps_id new = map (\<lambda>k. planned_sets_seq ?s + 1 + int k) [0..<length rows]"
    "planned_sets_seq (clone_rows logId rows ?s) = planned_sets_seq ?s + int (length rows)"
    by blast
  have ids: "map (\<lambda>k. planned_sets_seq s + 1 + int k) [0..<length (row # rows)]
       = (planned_sets_seq s + 1) # map (\<lambda>k. planned_sets_seq ?s + 1 + int k) [0..<length rows]"
    by (simp add: upt_conv_Cons map_Suc_upt [symmetric] del: upt_Suc)
  show ?case
    apply (rule exI [of _ "?p # new"])
    using new ids by (simp add: Let_def)
qed

lemma planned_count_clone:
  "length (filter (\<lambda>p. ps_log_id p = logId) (planned_sets (clone_rows logId rows s)))
     = length (filter (\<lambda>p. ps_log_id p = logId) (planned_sets s)) + length rows"
proof -
  from clone_rows_planned [of logId rows s] obtain new where
    n: "planned_sets (clone_rows logId rows s) = planned_sets s @ new"
      "length new = length rows" "list_all (\<lambda>p. ps_log_id p = logId) new"
    by blast
  from n(3) have "filter (\<lambda>p. ps_log_id p = logId) new = new"
    by (simp add: list_all_iff)
  with n show ?thesis by simp
qed

lemma split_rows_cong:
  "exercises s' = exercises s \<Longrightarrow> split_sets s' = split_sets s \<Longrightarrow>
   split_rows dow s' = split_rows dow s"
  by (simp add: split_rows_def)

lemma ensureDay_found:
  assumes "ensureDay uuid dateStr s = (Inr i, s1)"
  shows "\<exists>d ds. filter (\<lambda>d. dl_date d = dateStr) (daily_logs s1) = d # ds \<and> dl_id d = i"
    and "list_ex (\<lambda>d. dl_id d = i) (daily_logs s1)"
proof -
  show "\<exists>d ds. filter (\<lambda>d. dl_date d = dateStr) (daily_logs s1) = d # ds \<and> dl_id d = i"
    using assms by (auto simp: ensureDay_def split: list.splits if_splits)
  then obtain d ds where f: "filter (\<lambda>d. dl_date d = dateStr) (daily_logs s1) = d # ds" "dl_id d = i"
    by blast
  then have "d \<in> set (filter (\<lambda>d. dl_date d = dateStr) (daily_logs s1))" by simp
  then have "d \<in> set (daily_logs s1)" by simp
  with f(2) show "list_ex (\<lambda>d. dl_id d = i) (daily_logs s1)" by (auto simp: list_ex_iff)
qed

lemma ensureDay_again:
  assumes "filter (\<lambda>d. dl_date d = dateStr) (daily_logs s) = d # ds"
  shows "ensureDay uuid dateStr s = (Inr (dl_id d), s)"
  using assms by (simp add: ensureDay_def)

lemma applySplitIfEmpty_daily_logs:
  "daily_logs (snd (applySplitIfEmpty logId logDate s)) = daily_logs s"
  by (simp add: applySplitIfEmpty_def Let_def split: sum.splits)

lemma applySplitIfEmpty_again:
  assumes "applySplitIfEmpty logId logDate s = (Inr u, s1)"
  shows "applySplitIfEmpty logId logDate s1 = (Inr (), s1)"
proof (cases "length (filter (\<lambda>p. ps_log_id p = logId) (planned_sets s1)) > 0")
  case True
  then show ?thesis by (simp add: applySplitIfEmpty_def)
next
  case False
  let ?rows = "split_rows (getDay_of_week logDate) s"
  show ?thesis
  proof (cases "length (filter (\<lambda>p. ps_log_id p = logId) (planned_sets s)) > 0")
    case True
    with assms have "s1 = s" by (simp add: applySplitIfEmpty_def)
    with True False show ?thesis by simp
  next
    case empty: False
    with assms obtain prs where prs: "getPRs s = Inr prs"
      by (cases "getPRs s") (auto simp: applySplitIfEmpty_def Let_def)
    with empty assms have s1: "s1 = clone_rows logId ?rows s"
      by (auto simp: applySplitIfEmpty_def Let_def split: if_splits)
    from False s1 have "length ?rows = 0"
      using planned_count_clone [of logId ?rows s] by simp
    then have rows: "?rows = []" by simp
    with s1 have "s1 = s" by simp
    with rows empty prs show ?thesis by (simp add: applySplitIfEmpty_def Let_def)
  qed
qed

text \<open>
  Claim C4. When \<^verbatim>\<open>ensureDay\<close> followed by \<^verbatim>\<open>applySplitIfEmpty\<close> has run for a
  date, running the pair again for that date (whatever identifier \<^verbatim>\<open>generateUuid\<close>
  would draw) returns the same day and leaves the store as it is: the same planned
  sets, the same count for the day.
\<close>

theorem materialization_idempotent:
  assumes "ensureDay_applySplit uuid dateStr s = (Inr i, s1)"
  shows "ensureDay_applySplit uuid' dateStr s1 = (Inr i, s1)
     \<and> planned_sets (snd (ensureDay_applySplit uuid' dateStr s1)) = planned_sets s1
     \<and> length (filter (\<lambda>p. ps_log_id p = i) (planned_sets (snd (ensureDay_applySplit uuid' dateStr s1))))
         = length (filter (\<lambda>p. ps_log_id p = i) (planned_sets s1))"
proof -
  from assms obtain sa u where
    e: "ensureDay uuid dateStr s = (Inr i, sa)" and a: "applySplitIfEmpty i dateStr sa = (Inr u, s1)"
    by (auto simp: ensureDay_applySplit_def split: prod.splits sum.splits)
  from ensureDay_found(1) [OF e] obtain d ds where
    f: "filter (\<lambda>d. dl_date d = dateStr) (daily_logs sa) = d # ds" "dl_id d = i" by blast
  have "daily_logs s1 = daily_logs sa"
    using applySplitIfEmpty_daily_logs [of i dateStr sa] a by simp
  with f have e2: "ensureDay uuid' dateStr s1 = (Inr i, s1)"
    using ensureDay_again [of dateStr s1 d ds uuid'] by simp
  have a2: "applySplitIfEmpty i dateStr s1 = (Inr (), s1)"
    by (rule applySplitIfEmpty_again [OF a])
  have "ensureDay_applySplit uuid' dateStr s1 = (Inr i, s1)"
    by (simp add: ensureDay_applySplit_def e2 a2)
  then show ?thesis by simp
qed

theorem materialization_idempotent_witness:
  "length (filter (\<lambda>p. ps_log_id p = ''d1'')
      (planned_sets (snd (ensureDay_applySplit ''d1'' 19000 template_db)))) = 2
   \<and> ensureDay_applySplit ''d2'' 19000 (snd (ensureDay_applySplit ''d1'' 19000 template_db))
       = (Inr ''d1'', snd (ensureDay_applySplit ''d1'' 19000 template_db))"
proof -
  have h: "ensureDay_applySplit ''d1'' 19000 template_db
             = (Inr ''d1'', snd (ensureDay_applySplit ''d1'' 19000 template_db))"
    by code_simp
  have n: "length (filter (\<lambda>p. ps_log_id p = ''d1'')
      (planned_sets (snd (ensureDay_applySplit ''d1'' 19000 template_db)))) = 2"
    by code_simp
  from materialization_idempotent [OF h, of "''d2''"] n show ?thesis by simp
qed

subsection \<open>The active queue\<close>

lemma resolve_fields [simp]:
  "pl_id (resolve tab row) = pl_id row"
  "pl_exercise (resolve tab row) = pl_exercise row"
  "pl_reps (resolve tab row) = pl_reps row"
  "pl_load (resolve tab row) = pl_load row"
  "pl_rest (resolve tab row) = pl_rest row"
  "pl_order_num (resolve tab row) = pl_order_num row"
  "pl_relative (resolve tab row) = pl_relative row"
  "originalLoad (resolve tab row) = pl_load row"
  by (simp_all add: resolve_def Let_def plan_row.defs)

lemma resolve_truncate [simp]: "plan_row.truncate (resolve tab row) = row"
  by (simp add: resolve_def Let_def plan_row.defs)

lemma plan_query_set:
  "set (plan_query logId s) =
     {\<lparr>pl_id = ps_id ps, pl_exercise = ex_name e, pl_reps = ps_reps ps, pl_load = ps_load ps,
       pl_rest = ps_rest ps, pl_order_num = ps_order_num ps, pl_relative = ps_relative ps\<rparr>
      | ps e. ps \<in> set (planned_sets s) \<and> ps_log_id ps = logId \<and> e \<in> set (exercises s)
          \<and> ps_exercise_id ps = ex_id e
          \<and> \<not> list_ex (\<lambda>c. cs_planned_set_id c = Some (ps_id ps)) (completed_sets s)}"
proof -
  have "\<And>x. x \<in> set (plan_query logId s) \<longleftrightarrow>
     (\<exists>ps e. x = \<lparr>pl_id = ps_id ps, pl_exercise = ex_name e, pl_reps = ps_reps ps, pl_load = ps_load ps,
       pl_rest = ps_rest ps, pl_order_num = ps_order_num ps, pl_relative = ps_relative ps\<rparr>
        \<and> ps \<in> set (planned_sets s) \<and> ps_log_id ps = logId \<and> e \<in> set (exercises s)
          \<and> ps_exercise_id ps = ex_id e
          \<and> \<not> list_ex (\<lambda>c. cs_planned_set_id c = Some (ps_id ps)) (completed_sets s))"
    unfolding plan_query_def list_ex_iff
    by (simp add: filter_empty_conv) blast
  then show ?thesis by blast
qed

lemma plan_query_ids:
  "list_ex (\<lambda>r. pl_id r = i) (plan_query logId s) \<longleftrightarrow>
     (\<exists>ps e. ps \<in> set (planned_sets s) \<and> ps_log_id ps = logId \<and> e \<in> set (exercises s)
          \<and> ps_exercise_id ps = ex_id e \<and> ps_id ps = i
          \<and> \<not> list_ex (\<lambda>c. cs_planned_set_id c = Some i) (completed_sets s))"
proof -
  have "list_ex (\<lambda>r. pl_id r = i) (plan_query logId s) \<longleftrightarrow>
          (\<exists>r \<in> set (plan_query logId s). pl_id r = i)"
    by (simp add: list_ex_iff)
  also have "\<dots> \<longleftrightarrow> (\<exists>ps e. ps \<in> set (planned_sets s) \<and> ps_log_id ps = logId \<and> e \<in> set (exercises s)
          \<and> ps_exercise_id ps = ex_id e \<and> ps_id ps = i
          \<and> \<not> list_ex (\<lambda>c. cs_planned_set_id c = Some i) (completed_sets s))"
    unfolding plan_query_set by fastforce
  finally show ?thesis .
qed

lemma getDay_unknown:
  "\<not> list_ex (\<lambda>d. dl_id d = logId) (daily_logs s) \<Longrightarrow> getDay logId s = (Inr None, s)"
  by (simp add: getDay_def list_ex_iff filter_empty_conv)

lemma applySplitIfEmpty_planned:
  "list_ex (\<lambda>p. ps_log_id p = logId) (planned_sets s) \<Longrightarrow>
   applySplitIfEmpty logId logDate s = (Inr (), s)"
  by (auto simp: applySplitIfEmpty_def list_ex_iff filter_empty_conv)

lemma day_row:
  assumes "list_ex (\<lambda>d. dl_id d = logId) (daily_logs s)"
  shows "\<exists>lg ds. filter (\<lambda>d. dl_id d = logId) (daily_logs s) = lg # ds"
proof -
  from assms have "filter (\<lambda>d. dl_id d = logId) (daily_logs s) \<noteq> []"
    by (auto simp: list_ex_iff filter_empty_conv)
  then show ?thesis by (cases "filter (\<lambda>d. dl_id d = logId) (daily_logs s)") auto
qed

lemma getDay_materialized:
  assumes "list_ex (\<lambda>d. dl_id d = logId) (daily_logs s)"
    and "list_ex (\<lambda>p. ps_log_id p = logId) (planned_sets s)"
    and "getPRs s = Inr prs"
  shows "\<exists>lg. getDay logId s =
           (Inr (Some \<lparr>dv_log = lg, dv_plan = map (resolve (oneRMs prs)) (plan_query logId s),
                       dv_completed = completed_query logId s\<rparr>), s)"
proof -
  from day_row [OF assms(1)] obtain lg ds where
    f: "filter (\<lambda>d. dl_id d = logId) (daily_logs s) = lg # ds" by blast
  have a: "applySplitIfEmpty logId (dl_date lg) s = (Inr (), s)"
    by (rule applySplitIfEmpty_planned [OF assms(2)])
  show ?thesis by (simp add: getDay_def f a assms(3))
qed

lemma getDay_throws:
  assumes "list_ex (\<lambda>d. dl_id d = logId) (daily_logs s)"
    and "list_ex (\<lambda>p. ps_log_id p = logId) (planned_sets s)"
    and "getPRs s = Inl e"
  shows "getDay logId s = (Inl e, s)"
proof -
  from day_row [OF assms(1)] obtain lg ds where
    f: "filter (\<lambda>d. dl_id d = logId) (daily_logs s) = lg # ds" by blast
  have a: "applySplitIfEmpty logId (dl_date lg) s = (Inr (), s)"
    by (rule applySplitIfEmpty_planned [OF assms(2)])
  show ?thesis by (simp add: getDay_def f a assms(3))
qed

lemma getDay_returns:
  assumes "getDay logId s = (Inr (Some v), s1)"
  shows "\<exists>prs. getPRs s1 = Inr prs
           \<and> dv_plan v = map (resolve (oneRMs prs)) (plan_query logId s1)
           \<and> dv_completed v = completed_query logId s1"
    and "list_ex (\<lambda>d. dl_id d = logId) (daily_logs s)"
proof -
  show "list_ex (\<lambda>d. dl_id d = logId) (daily_logs s)"
  proof (rule ccontr)
    assume "\<not> list_ex (\<lambda>d. dl_id d = logId) (daily_logs s)"
    from getDay_unknown [OF this] assms show False by simp
  qed
  show "\<exists>prs. getPRs s1 = Inr prs
           \<and> dv_plan v = map (resolve (oneRMs prs)) (plan_query logId s1)
           \<and> dv_completed v = completed_query logId s1"
    using assms
    by (auto simp: getDay_def split: list.splits prod.splits sum.splits)
qed

lemma getDay_same_store:
  assumes "getDay logId s = (r, s1)" "list_ex (\<lambda>p. ps_log_id p = logId) (planned_sets s)"
  shows "s1 = s"
proof (cases "filter (\<lambda>d. dl_id d = logId) (daily_logs s)")
  case Nil
  with assms(1) show ?thesis by (simp add: getDay_def)
next
  case (Cons lg ds)
  have a: "applySplitIfEmpty logId (dl_date lg) s = (Inr (), s)"
    by (rule applySplitIfEmpty_planned [OF assms(2)])
  from assms(1) show ?thesis
    by (auto simp: getDay_def Cons a split: sum.splits)
qed

lemma addCompleted_planned_sets:
  "planned_sets (snd (addCompleted rd logId item s)) = planned_sets s"
  by (simp add: addCompleted_def getExerciseId_def Let_def
      split: option.splits list.splits prod.splits sum.splits)

lemma plan_ids_resolved:
  "list_ex (\<lambda>r. pl_id r = i) (map (resolve tab) rows) = list_ex (\<lambda>r. pl_id r = i) rows"
  by (simp add: list_ex_iff)

text \<open>
  Claim C3. Let \<open>P\<close> be a planned set of a day, in a store that satisfies the foreign key
  of \<open>exercise_id\<close>. In the plan that \<^verbatim>\<open>getDay\<close> returns for the day, \<open>P\<close> appears if
  and only if no completed set references it through \<open>planned_set_id\<close>; the call leaves
  the store as it is. \<^verbatim>\<open>getDay\<close> does return a plan when the day exists and
  \<^verbatim>\<open>getPRs\<close> returns, and fails with the error of \<^verbatim>\<open>getPRs\<close> otherwise.
  \<^verbatim>\<open>addCompleted\<close> leaves the planned sets as they are: once a completed set that
  links \<open>P\<close> is recorded, \<open>P\<close> is still a row of the table, a completed set references
  it, and it is in no plan that \<^verbatim>\<open>getDay\<close> returns for the day.
\<close>

theorem queue_exclusion:
  assumes "exercise_fk s" and "P \<in> set (planned_sets s)"
  shows "(getDay (ps_log_id P) s = (Inr (Some v), s1) \<longrightarrow>
            s1 = s
            \<and> (list_ex (\<lambda>r. pl_id r = ps_id P) (dv_plan v) \<longleftrightarrow>
                 \<not> list_ex (\<lambda>c. cs_planned_set_id c = Some (ps_id P)) (completed_sets s)))
     \<and> (list_ex (\<lambda>d. dl_id d = ps_log_id P) (daily_logs s) \<and> getPRs s = Inr prs \<longrightarrow>
            (\<exists>w. getDay (ps_log_id P) s = (Inr (Some w), s)))
     \<and> (list_ex (\<lambda>d. dl_id d = ps_log_id P) (daily_logs s) \<and> getPRs s = Inl e \<longrightarrow>
            getDay (ps_log_id P) s = (Inl e, s))
     \<and> planned_sets (snd (addCompleted rd logId item s)) = planned_sets s
     \<and> (addCompleted rd logId item s = (Inr i, s')
          \<and> completed_columns rd item = Some (Some (ps_id P), reps_done, load_done) \<longrightarrow>
        P \<in> set (planned_sets s')
          \<and> list_ex (\<lambda>c. cs_planned_set_id c = Some (ps_id P)) (completed_sets s')
          \<and> (\<forall>v' s1'. getDay (ps_log_id P) s' = (Inr (Some v'), s1') \<longrightarrow>
                \<not> list_ex (\<lambda>r. pl_id r = ps_id P) (dv_plan v')))"
proof -
  have has: "list_ex (\<lambda>p. ps_log_id p = ps_log_id P) (planned_sets s)"
    using assms(2) by (auto simp: list_ex_iff)
  from assms(1,2) obtain x where x: "x \<in> set (exercises s)" "ex_id x = ps_exercise_id P"
    by (auto simp: exercise_fk_def list_all_iff list_ex_iff)
  have q: "list_ex (\<lambda>r. pl_id r = ps_id P) (plan_query (ps_log_id P) s) \<longleftrightarrow>
          \<not> list_ex (\<lambda>c. cs_planned_set_id c = Some (ps_id P)) (completed_sets s)"
    unfolding plan_query_ids using assms(2) x by (metis (no_types))
  have first: "s1 = s
            \<and> (list_ex (\<lambda>r. pl_id r = ps_id P) (dv_plan v) \<longleftrightarrow>
                 \<not> list_ex (\<lambda>c. cs_planned_set_id c = Some (ps_id P)) (completed_sets s))"
    if g: "getDay (ps_log_id P) s = (Inr (Some v), s1)"
  proof -
    have same: "s1 = s" by (rule getDay_same_store [OF g has])
    from getDay_returns(1) [OF g] obtain prs' where
      "dv_plan v = map (resolve (oneRMs prs')) (plan_query (ps_log_id P) s1)" by blast
    with same q show ?thesis by (simp add: plan_ids_resolved)
  qed
  have second: "\<exists>w. getDay (ps_log_id P) s = (Inr (Some w), s)"
    if "list_ex (\<lambda>d. dl_id d = ps_log_id P) (daily_logs s)" "getPRs s = Inr prs"
    using getDay_materialized [OF that(1) has that(2)] by blast
  have third: "getDay (ps_log_id P) s = (Inl e, s)"
    if "list_ex (\<lambda>d. dl_id d = ps_log_id P) (daily_logs s)" "getPRs s = Inl e"
    by (rule getDay_throws [OF that(1) has that(2)])
  have fifth: "P \<in> set (planned_sets s')
          \<and> list_ex (\<lambda>c. cs_planned_set_id c = Some (ps_id P)) (completed_sets s')
          \<and> (\<forall>v' s1'. getDay (ps_log_id P) s' = (Inr (Some v'), s1') \<longrightarrow>
                \<not> list_ex (\<lambda>r. pl_id r = ps_id P) (dv_plan v'))"
    if ok: "addCompleted rd logId item s = (Inr i, s')"
      and link: "completed_columns rd item = Some (Some (ps_id P), reps_done, load_done)"
  proof -
    have p': "planned_sets s' = planned_sets s"
      using addCompleted_planned_sets [of rd logId item s] ok by simp
    have c': "list_ex (\<lambda>c. cs_planned_set_id c = Some (ps_id P)) (completed_sets s')"
      using ok link by (auto simp: addCompleted_def getExerciseId_def Let_def
          split: option.splits list.splits prod.splits sum.splits if_splits)
    have has': "list_ex (\<lambda>p. ps_log_id p = ps_log_id P) (planned_sets s')"
      using has p' by simp
    have no: "\<not> list_ex (\<lambda>r. pl_id r = ps_id P) (dv_plan v')"
      if g: "getDay (ps_log_id P) s' = (Inr (Some v'), s1')" for v' s1'
    proof -
      have same: "s1' = s'" by (rule getDay_same_store [OF g has'])
      from getDay_returns(1) [OF g] obtain prs' where
        pl: "dv_plan v' = map (resolve (oneRMs prs')) (plan_query (ps_log_id P) s1')" by blast
      have "\<not> list_ex (\<lambda>r. pl_id r = ps_id P) (plan_query (ps_log_id P) s')"
        unfolding plan_query_ids using c' by simp
      with pl same show ?thesis by (simp add: plan_ids_resolved)
    qed
    have m: "P \<in> set (planned_sets s')" using p' assms(2) by simp
    have n: "\<forall>v' s1'. getDay (ps_log_id P) s' = (Inr (Some v'), s1') \<longrightarrow>
                \<not> list_ex (\<lambda>r. pl_id r = ps_id P) (dv_plan v')"
      using no by (intro allI impI)
    show ?thesis by (intro conjI) (fact m c' n)+
  qed
  have fourth: "planned_sets (snd (addCompleted rd logId item s)) = planned_sets s"
    by (rule addCompleted_planned_sets)
  from first have first': "getDay (ps_log_id P) s = (Inr (Some v), s1) \<longrightarrow>
            s1 = s
            \<and> (list_ex (\<lambda>r. pl_id r = ps_id P) (dv_plan v) \<longleftrightarrow>
                 \<not> list_ex (\<lambda>c. cs_planned_set_id c = Some (ps_id P)) (completed_sets s))"
    by blast
  from second have second': "list_ex (\<lambda>d. dl_id d = ps_log_id P) (daily_logs s) \<and> getPRs s = Inr prs \<longrightarrow>
            (\<exists>w. getDay (ps_log_id P) s = (Inr (Some w), s))" by blast
  from third have third': "list_ex (\<lambda>d. dl_id d = ps_log_id P) (daily_logs s) \<and> getPRs s = Inl e \<longrightarrow>
            getDay (ps_log_id P) s = (Inl e, s)" by blast
  from fifth have fifth': "addCompleted rd logId item s = (Inr i, s')
          \<and> completed_columns rd item = Some (Some (ps_id P), reps_done, load_done) \<longrightarrow>
        P \<in> set (planned_sets s')
          \<and> list_ex (\<lambda>c. cs_planned_set_id c = Some (ps_id P)) (completed_sets s')
          \<and> (\<forall>v' s1'. getDay (ps_log_id P) s' = (Inr (Some v'), s1') \<longrightarrow>
                \<not> list_ex (\<lambda>r. pl_id r = ps_id P) (dv_plan v'))" by blast
  show ?thesis by (intro conjI) (fact first' second' third' fourth fifth')+
qed

theorem queue_exclusion_witness:
  "(case fst (getDay ''d1'' queue_db) of
      Inr (Some v) \<Rightarrow> map pl_id (dv_plan v) | _ \<Rightarrow> []) = [1, 2]
   \<and> (case fst (getDay ''d1'' (snd (addCompleted whole_loads ''d1'' complete_A queue_db))) of
      Inr (Some v) \<Rightarrow> map pl_id (dv_plan v) | _ \<Rightarrow> []) = [2]
   \<and> map ps_id (planned_sets (snd (addCompleted whole_loads ''d1'' complete_A queue_db))) = [1, 2]"
proof -
  let ?A = "\<lparr>ps_id = 1, ps_log_id = ''d1'', ps_exercise_id = 1, ps_order_num = 1, ps_reps = 5,
           ps_load = 100, ps_rest = 60, ps_relative = False\<rparr>"
  let ?s' = "snd (addCompleted whole_loads ''d1'' complete_A queue_db)"
  have fk: "exercise_fk queue_db" by code_simp
  have mem: "?A \<in> set (planned_sets queue_db)" by (simp add: queue_db_def)
  have ok: "addCompleted whole_loads ''d1'' complete_A queue_db = (Inr 1, ?s')" by code_simp
  have link: "completed_columns whole_loads complete_A = Some (Some (ps_id ?A), Some 5, Some 100)"
    by code_simp
  note t = queue_exclusion [OF fk mem, where rd = whole_loads and logId = "''d1''"
      and item = complete_A and i = 1 and s' = ?s' and reps_done = "Some 5"
      and load_done = "Some 100"]
  have a: "(case fst (getDay ''d1'' queue_db) of
      Inr (Some v) \<Rightarrow> map pl_id (dv_plan v) | _ \<Rightarrow> []) = [1, 2]" by code_simp
  have b: "(case fst (getDay ''d1'' ?s') of
      Inr (Some v) \<Rightarrow> map pl_id (dv_plan v) | _ \<Rightarrow> []) = [2]" by code_simp
  from t ok link have "?A \<in> set (planned_sets ?s')" by blast
  moreover from t have "planned_sets ?s' = planned_sets queue_db" by blast
  ultimately show ?thesis using a b by (simp add: queue_db_def)
qed

subsection \<open>Personal records\<close>

lemma pr_candidates_positive:
  "(n, r, l) \<in> set (pr_candidates s) \<Longrightarrow> 0 < r \<and> 0 < l"
  by (auto simp: pr_candidates_def Let_def split: option.splits if_splits)

lemma fold_max_ge: "(l::rat) \<le> fold max ls l"
proof (induction ls arbitrary: l)
  case Nil
  then show ?case by simp
next
  case (Cons a ls)
  have "l \<le> max a l" by simp
  also have "\<dots> \<le> fold max ls (max a l)" by (rule Cons.IH)
  finally show ?case by simp
qed

lemma group_max_positive:
  assumes "(n, r, l) \<in> set (pr_candidates s)"
  shows "0 < group_max (pr_candidates s) n r"
proof -
  let ?ls = "map (\<lambda>(n', r', l). l) (filter (\<lambda>(n', r', l). n' = n \<and> r' = r) (pr_candidates s))"
  from assms have "l \<in> set ?ls" by force
  then have "0 < length ?ls" by (rule length_pos_if_in_set)
  then obtain l0 ls where ls: "?ls = l0 # ls"
    by (metis length_greater_0_conv neq_Nil_conv)
  then have "l0 \<in> set ?ls" by simp
  then have "0 < l0" using pr_candidates_positive [of _ _ _ s] by auto
  with fold_max_ge [of l0 ls] have "0 < fold max ls l0" by linarith
  with ls show ?thesis by (simp add: group_max_def)
qed

lemma in_groups:
  "(n, r) \<in> set (sort (remdups (map (\<lambda>(n, r, l). (n, r)) cands))) \<longleftrightarrow>
     (\<exists>l. (n, r, l) \<in> set cands)"
  by force

lemma pr_rows_positive:
  assumes "(n, x) \<in> set (pr_rows s)"
  shows "0 < pr_reps x \<and> 0 < pr_maxLoad x"
proof -
  let ?cands = "pr_candidates s"
  from assms obtain r l where l: "(n, r, l) \<in> set ?cands"
    and x: "x = \<lparr>pr_reps = r, pr_maxLoad = group_max ?cands n r\<rparr>"
    unfolding pr_rows_def Let_def by auto
  from pr_candidates_positive [OF l] group_max_positive [OF l] x show ?thesis by simp
qed

lemma in_update: "x \<in> set (AList.update k v al) \<Longrightarrow> x = (k, v) \<or> x \<in> set al"
  by (induction al) (auto split: if_splits)

lemma get_property_Own: "get_property obj k = Own v \<Longrightarrow> (k, v) \<in> set obj"
  by (auto simp: get_property_def split: if_splits option.splits dest: map_of_SomeD)

lemma group_rows_records:
  assumes "group_rows rows obj = Inr res"
    and "\<forall>(k, rs) \<in> set obj. rs \<noteq> [] \<and> (\<forall>r \<in> set rs. Q r)"
    and "\<forall>(k, r) \<in> set rows. Q r"
  shows "\<forall>(k, rs) \<in> set res. rs \<noteq> [] \<and> (\<forall>r \<in> set rs. Q r)"
  using assms
proof (induction rows arbitrary: obj)
  case Nil
  then show ?case by simp
next
  case (Cons row rows)
  obtain k r where row: "row = (k, r)" by (cases row)
  from Cons.prems(3) row have q: "Q r" and rest: "\<forall>(k, r) \<in> set rows. Q r" by auto
  show ?case
  proof (cases "get_property obj k")
    case (Own rs)
    from get_property_Own [OF Own] Cons.prems(2) have rs: "\<forall>r \<in> set rs. Q r" by auto
    have "\<forall>(k, rs) \<in> set (assign_property obj k (rs @ [r])). rs \<noteq> [] \<and> (\<forall>r \<in> set rs. Q r)"
      using Cons.prems(2) rs q
      by (auto simp: assign_property_def dest!: in_update)
    moreover from Cons.prems(1) row Own
    have "group_rows rows (assign_property obj k (rs @ [r])) = Inr res" by simp
    ultimately show ?thesis using Cons.IH rest by blast
  next
    case Inherited
    with Cons.prems(1) row show ?thesis by simp
  next
    case Missing
    have "\<forall>(k, rs) \<in> set (assign_property obj k [r]). rs \<noteq> [] \<and> (\<forall>r \<in> set rs. Q r)"
      using Cons.prems(2) q
      by (auto simp: assign_property_def dest!: in_update)
    moreover from Cons.prems(1) row Missing
    have "group_rows rows (assign_property obj k [r]) = Inr res" by simp
    ultimately show ?thesis using Cons.IH rest by blast
  qed
qed

text \<open>The PR records that \<^verbatim>\<open>getPRs\<close> lists for an exercise are not empty, and their
  repetitions and loads are positive, as the query filters them.\<close>

lemma getPRs_records:
  assumes "getPRs s = Inr prs" "(n, records) \<in> set prs"
  shows "records \<noteq> [] \<and> (\<forall>r \<in> set records. 0 < pr_reps r \<and> 0 < pr_maxLoad r)"
proof (cases "tracked_exercises s = []")
  case True
  with assms show ?thesis by (simp add: getPRs_def)
next
  case False
  with assms(1) have g: "group_rows (pr_rows s) [] = Inr prs" by (simp add: getPRs_def)
  have "\<forall>(k, rs) \<in> set prs. rs \<noteq> [] \<and> (\<forall>r \<in> set rs. 0 < pr_reps r \<and> 0 < pr_maxLoad r)"
    by (rule group_rows_records [OF g]) (use pr_rows_positive in auto)
  with assms(2) show ?thesis by auto
qed

text \<open>\<^verbatim>\<open>getPRs\<close> fails exactly when a row of its query bears a name that every object
  inherits.\<close>

lemma proto_in_prototype: "''__proto__'' \<in> set Object_prototype"
  by (simp add: Object_prototype_def)

lemma group_rows_step:
  assumes "k \<notin> set Object_prototype"
  shows "\<exists>v. group_rows ((k, r) # rows) obj = group_rows rows (assign_property obj k v)"
proof (cases "map_of obj k")
  case None
  with assms proto_in_prototype have "get_property obj k = Missing"
    by (auto simp: get_property_def)
  then show ?thesis by auto
next
  case (Some rs)
  with assms proto_in_prototype have "get_property obj k = Own rs"
    by (auto simp: get_property_def)
  then show ?thesis by auto
qed

lemma assign_property_keys:
  assumes "fst ` set obj \<inter> set Object_prototype = {}" "k \<notin> set Object_prototype"
  shows "fst ` set (assign_property obj k v) \<inter> set Object_prototype = {}"
  using assms by (auto simp: assign_property_def dom_update)

lemma group_rows_inherited:
  assumes "fst ` set obj \<inter> set Object_prototype = {}"
    and "\<exists>(k, r) \<in> set rows. k \<in> set Object_prototype"
  shows "group_rows rows obj = Inl TypeError"
  using assms
proof (induction rows arbitrary: obj)
  case Nil
  then show ?case by simp
next
  case (Cons row rows)
  obtain k r where row: "row = (k, r)" by (cases row)
  show ?case
  proof (cases "k \<in> set Object_prototype")
    case True
    with Cons.prems(1) have "k \<notin> fst ` set obj" by auto
    then have "map_of obj k = None" by (simp add: map_of_eq_None_iff)
    with True have "get_property obj k = Inherited" by (simp add: get_property_def)
    with row show ?thesis by simp
  next
    case False
    from group_rows_step [OF False, of r rows obj] obtain v where
      v: "group_rows ((k, r) # rows) obj = group_rows rows (assign_property obj k v)" by blast
    from Cons.prems(2) row False have ex: "\<exists>(k, r) \<in> set rows. k \<in> set Object_prototype"
      by auto
    from Cons.IH [OF assign_property_keys [OF Cons.prems(1) False] ex] v row
    show ?thesis by simp
  qed
qed

lemma group_rows_returns:
  assumes "fst ` set obj \<inter> set Object_prototype = {}"
    and "\<forall>(k, r) \<in> set rows. k \<notin> set Object_prototype"
  shows "\<exists>res. group_rows rows obj = Inr res"
  using assms
proof (induction rows arbitrary: obj)
  case Nil
  then show ?case by simp
next
  case (Cons row rows)
  obtain k r where row: "row = (k, r)" by (cases row)
  from Cons.prems(2) row have k: "k \<notin> set Object_prototype"
    and rest: "\<forall>(k, r) \<in> set rows. k \<notin> set Object_prototype" by auto
  from group_rows_step [OF k, of r rows obj] obtain v where
    v: "group_rows ((k, r) # rows) obj = group_rows rows (assign_property obj k v)" by blast
  from Cons.IH [OF assign_property_keys [OF Cons.prems(1) k] rest] v row
  show ?case by simp
qed

lemma getPRs_throws:
  "getPRs s = Inl e \<longleftrightarrow>
     e = TypeError \<and> tracked_exercises s \<noteq> []
       \<and> (\<exists>(n, r) \<in> set (pr_rows s). n \<in> set Object_prototype)"
proof (cases "tracked_exercises s = []")
  case True
  then show ?thesis by (simp add: getPRs_def)
next
  case False
  have e: "fst ` set ([]::(string \<times> pr list) list) \<inter> set Object_prototype = {}" by simp
  show ?thesis
  proof (cases "\<exists>(n, r) \<in> set (pr_rows s). n \<in> set Object_prototype")
    case True
    from group_rows_inherited [OF e True] False True show ?thesis
      by (auto simp: getPRs_def)
  next
    case no: False
    then have "\<forall>(k, r) \<in> set (pr_rows s). k \<notin> set Object_prototype" by auto
    from group_rows_returns [OF e this] obtain res where "group_rows (pr_rows s) [] = Inr res"
      by blast
    with False no show ?thesis by (simp add: getPRs_def)
  qed
qed

subsection \<open>Load resolution\<close>

lemma js_round_0 [simp]: "js_round 0 = 0"
  by (simp add: js_round_def floor_eq_iff)

lemma fl_0 [simp]: "fl 0 = 0"
  by (simp add: fl_def)

lemma oneRMs_lookup:
  "get_property (oneRMs prs) k =
     (case get_property prs k of
        Own records \<Rightarrow> Own (oneRepMax records)
      | Inherited \<Rightarrow> Inherited
      | Missing \<Rightarrow> Missing)"
proof -
  have "map_of (oneRMs prs) k = map_option oneRepMax (map_of prs k)"
    unfolding oneRMs_def by (induction prs) auto
  then show ?thesis by (simp add: get_property_def split: option.splits)
qed

lemma calculatedLoad_resolve:
  "calculatedLoad (resolve tab row) =
     (if pl_relative row
      then (case get_property tab (lower (pl_exercise row)) of
              Missing \<Rightarrow> Num 0
            | Own rm \<Rightarrow> Num (of_int (js_round (fdiv (fmul rm (pl_load row)) 100)))
            | Inherited \<Rightarrow> NaN)
      else Num (pl_load row))"
  by (simp add: resolve_def Let_def plan_row.defs fmul_def fdiv_def split: property.splits)

lemma applySplitIfEmpty_keeps_planned:
  "\<exists>new. planned_sets (snd (applySplitIfEmpty logId logDate s)) = planned_sets s @ new"
  using clone_rows_planned [of logId "split_rows (getDay_of_week logDate) s" s]
  by (auto simp: applySplitIfEmpty_def Let_def split: sum.splits)

lemma getDay_keeps_planned:
  "\<exists>new. planned_sets (snd (getDay logId s)) = planned_sets s @ new"
proof (cases "filter (\<lambda>d. dl_id d = logId) (daily_logs s)")
  case Nil
  then show ?thesis by (simp add: getDay_def)
next
  case (Cons lg ds)
  from applySplitIfEmpty_keeps_planned [of logId "dl_date lg" s] obtain new where
    "planned_sets (snd (applySplitIfEmpty logId (dl_date lg) s)) = planned_sets s @ new" by blast
  then show ?thesis
    by (cases "applySplitIfEmpty logId (dl_date lg) s")
       (auto simp: getDay_def Cons split: sum.splits)
qed

text \<open>
  What \<^verbatim>\<open>getDay\<close> resolves. Every row of the plan that it returns shows a planned set
  of the day with its stored load. Its \<open>originalLoad\<close> is the stored load. If the set is
  not relative, so is its \<open>calculatedLoad\<close>. If it is relative, the \<open>calculatedLoad\<close> is
  \<^verbatim>\<open>Math.round(oneRM * load / 100)\<close> when \<^verbatim>\<open>getPRs\<close> lists PR records under the
  exercise's name in lower case, \<open>oneRM\<close> being the estimate from those records; it is 0
  when \<^verbatim>\<open>getPRs\<close> lists none, unless that name is one that every object inherits, and
  then it is \<^verbatim>\<open>NaN\<close>. The planned sets that the store held before the call are still
  there afterwards, as they were: resolution writes nothing.
\<close>

lemma getDay_resolves_loads:
  assumes "getDay logId s = (Inr (Some v), s1)" and "r \<in> set (dv_plan v)"
  shows "\<exists>prs. getPRs s1 = Inr prs
     \<and> (\<exists>P \<in> set (planned_sets s1). ps_id P = pl_id r \<and> ps_log_id P = logId
            \<and> ps_load P = pl_load r \<and> ps_relative P = pl_relative r)
     \<and> originalLoad r = pl_load r
     \<and> (\<not> pl_relative r \<longrightarrow> calculatedLoad r = Num (pl_load r))
     \<and> (pl_relative r \<longrightarrow>
          calculatedLoad r =
            (case get_property prs (lower (pl_exercise r)) of
               Own records \<Rightarrow>
                 Num (of_int (js_round (fdiv (fmul (oneRepMax records) (pl_load r)) 100)))
             | Missing \<Rightarrow> Num 0
             | Inherited \<Rightarrow> NaN))
     \<and> (\<exists>new. planned_sets s1 = planned_sets s @ new)"
proof -
  from getDay_returns(1) [OF assms(1)] obtain prs where prs: "getPRs s1 = Inr prs"
    and pl: "dv_plan v = map (resolve (oneRMs prs)) (plan_query logId s1)" by blast
  from pl assms(2) obtain row where
    row: "row \<in> set (plan_query logId s1)" "r = resolve (oneRMs prs) row" by auto
  from row(1) obtain P and e :: exercise where P: "P \<in> set (planned_sets s1)" "ps_log_id P = logId"
    "row = \<lparr>pl_id = ps_id P, pl_exercise = ex_name e, pl_reps = ps_reps P, pl_load = ps_load P,
       pl_rest = ps_rest P, pl_order_num = ps_order_num P, pl_relative = ps_relative P\<rparr>"
    unfolding plan_query_set mem_Collect_eq by blast
  have a: "\<exists>P \<in> set (planned_sets s1). ps_id P = pl_id r \<and> ps_log_id P = logId
            \<and> ps_load P = pl_load r \<and> ps_relative P = pl_relative r"
    using P row(2) by (intro bexI [of _ P]) simp_all
  have b: "originalLoad r = pl_load r" using row(2) by simp
  have c: "calculatedLoad r =
     (if pl_relative r
      then (case get_property prs (lower (pl_exercise r)) of
               Own records \<Rightarrow>
                 Num (of_int (js_round (fdiv (fmul (oneRepMax records) (pl_load r)) 100)))
             | Missing \<Rightarrow> Num 0
             | Inherited \<Rightarrow> NaN)
      else Num (pl_load r))"
    unfolding row(2) calculatedLoad_resolve oneRMs_lookup
    by (simp split: property.splits)
  have d: "\<exists>new. planned_sets s1 = planned_sets s @ new"
    using getDay_keeps_planned [of logId s] assms(1) by simp
  from prs a b c d show ?thesis by simp
qed

text \<open>Examples of the arithmetic: a best set of 8 repetitions at 110 gives a one-rep max
  of \<open>110 * (1 + 8 / 30)\<close>, and 75 percent of it resolves to 104 (the exact product is
  104.5); 5 repetitions at 100 and 80 percent resolve to 93.\<close>

lemma resolve_examples:
  "js_round (fdiv (fmul (oneRepMax [\<lparr>pr_reps = 8, pr_maxLoad = 110\<rparr>]) 75) 100) = 104
   \<and> js_round (fdiv (fmul (oneRepMax [\<lparr>pr_reps = 5, pr_maxLoad = 100\<rparr>]) 80) 100) = 93
   \<and> computeEstimated1RM 12 (45 / 2) = 31"
  by code_simp

text \<open>
  Claim C5 has a relative set resolve to 0 when the table of one-rep maxima has no entry
  for its exercise. The table is a plain object: for an exercise named \<open>Constructor\<close>,
  with no completed set at all, the lookup under \<open>constructor\<close> finds the function that
  every object inherits, and the \<open>calculatedLoad\<close> of the planned set is \<^verbatim>\<open>NaN\<close>, not
  0. (\<^verbatim>\<open>getPRs\<close> lists nothing for the store.)
\<close>

theorem load_resolution_inherited_name:
  "getPRs constructor_db = Inr []
   \<and> getDay ''d1'' constructor_db =
       (Inr (Some \<lparr>dv_log = \<lparr>dl_id = ''d1'', dl_date = 19000, dl_summary = []\<rparr>,
                   dv_plan = [\<lparr>pl_id = 1, pl_exercise = ''Constructor'', pl_reps = 5,
                               pl_load = 80, pl_rest = 60, pl_order_num = 1,
                               pl_relative = True, calculatedLoad = NaN, originalLoad = 80\<rparr>],
                   dv_completed = []\<rparr>), constructor_db)"
  by code_simp

lemma getDay_example:
  "getDay ''d1'' done_db =
     (Inr (Some \<lparr>dv_log = \<lparr>dl_id = ''d1'', dl_date = 19000, dl_summary = []\<rparr>,
                 dv_plan = [\<lparr>pl_id = 2, pl_exercise = ''Squat'', pl_reps = 5, pl_load = 80,
                             pl_rest = 90, pl_order_num = 2, pl_relative = True,
                             calculatedLoad = Num 93, originalLoad = 80\<rparr>],
                 dv_completed = [\<lparr>cr_id = 1, cr_exercise = ''Squat'',
                     cr_planned_set_id = Some 1, cr_reps_done = Some 5,
                     cr_load_done = Some 100, cr_completed_at = 1000\<rparr>]\<rparr>), done_db)
   \<and> getPRs done_db = Inr [(''squat'', [\<lparr>pr_reps = 5, pr_maxLoad = 100\<rparr>])]"
  by code_simp

subsection \<open>Get-or-create of an exercise\<close>

lemma getExerciseId_frame [simp]:
  "daily_logs (snd (getExerciseId name s)) = daily_logs s"
  "planned_sets (snd (getExerciseId name s)) = planned_sets s"
  "planned_sets_seq (snd (getExerciseId name s)) = planned_sets_seq s"
  "completed_sets (snd (getExerciseId name s)) = completed_sets s"
  "completed_sets_seq (snd (getExerciseId name s)) = completed_sets_seq s"
  "split_sets (snd (getExerciseId name s)) = split_sets s"
  "split_sets_seq (snd (getExerciseId name s)) = split_sets_seq s"
  "tracked_exercises (snd (getExerciseId name s)) = tracked_exercises s"
  "timer (snd (getExerciseId name s)) = timer s"
  "timer_seq (snd (getExerciseId name s)) = timer_seq s"
  "now (snd (getExerciseId name s)) = now s"
  by (simp_all add: getExerciseId_def Let_def split: option.splits list.splits)

lemma getExerciseId_exercises:
  "exercises (snd (getExerciseId name s)) = exercises s
   \<or> (\<exists>n. exercises (snd (getExerciseId name s))
              = exercises s @ [\<lparr>ex_id = exercises_seq s + 1, ex_name = n\<rparr>])"
  by (simp add: getExerciseId_def Let_def split: option.splits list.splits)

lemma getExerciseId_succeeds:
  assumes "name = Some n" "length n \<le> 255"
  shows "\<exists>i s1. getExerciseId name s = (Inr i, s1)"
  using assms by (simp add: getExerciseId_def Let_def split: list.splits)

lemma getExerciseId_named:
  assumes "getExerciseId (Some n) s = (Inr i, s1)"
  shows "list_ex (\<lambda>e. ex_id e = i \<and> lower (ex_name e) = lower n) (exercises s1)"
proof (cases "filter (\<lambda>e. lower (ex_name e) = lower n) (exercises s)")
  case Nil
  with assms show ?thesis
    by (auto simp: getExerciseId_def Let_def split: if_splits)
next
  case (Cons e es)
  then have "e \<in> set (filter (\<lambda>e. lower (ex_name e) = lower n) (exercises s))" by simp
  then have "e \<in> set (exercises s)" "lower (ex_name e) = lower n" by simp_all
  with assms Cons show ?thesis
    by (auto simp: getExerciseId_def list_ex_iff)
qed

subsection \<open>Recording a completed set\<close>

lemma addCompleted_frame [simp]:
  "daily_logs (snd (addCompleted rd logId item s)) = daily_logs s"
  "planned_sets (snd (addCompleted rd logId item s)) = planned_sets s"
  "split_sets (snd (addCompleted rd logId item s)) = split_sets s"
  "tracked_exercises (snd (addCompleted rd logId item s)) = tracked_exercises s"
  "timer (snd (addCompleted rd logId item s)) = timer s"
  "timer_seq (snd (addCompleted rd logId item s)) = timer_seq s"
  "now (snd (addCompleted rd logId item s)) = now s"
  by (simp_all add: addCompleted_def Let_def split_beta
      split: option.splits list.splits prod.splits sum.splits)

lemma addCompleted_exercises:
  "exercises (snd (addCompleted rd logId item s))
     = exercises (snd (getExerciseId (ci_exercise item) s))"
  by (simp add: addCompleted_def Let_def split: option.splits prod.splits sum.splits)

subsection \<open>Completion and the timer\<close>

lemma applySplitIfEmpty_frame [simp]:
  "exercises (snd (applySplitIfEmpty logId logDate s)) = exercises s"
  "exercises_seq (snd (applySplitIfEmpty logId logDate s)) = exercises_seq s"
  "daily_logs (snd (applySplitIfEmpty logId logDate s)) = daily_logs s"
  "completed_sets (snd (applySplitIfEmpty logId logDate s)) = completed_sets s"
  "tracked_exercises (snd (applySplitIfEmpty logId logDate s)) = tracked_exercises s"
  "now (snd (applySplitIfEmpty logId logDate s)) = now s"
  "timer (snd (applySplitIfEmpty logId logDate s)) = timer s"
  by (simp_all add: applySplitIfEmpty_def Let_def split: sum.splits)

lemma getDay_state:
  "snd (getDay logId s) = s \<or> (\<exists>d. snd (getDay logId s) = snd (applySplitIfEmpty logId d s))"
proof (cases "filter (\<lambda>d. dl_id d = logId) (daily_logs s)")
  case Nil
  then show ?thesis by (simp add: getDay_def)
next
  case (Cons lg ds)
  have "snd (getDay logId s) = snd (applySplitIfEmpty logId (dl_date lg) s)"
    by (cases "applySplitIfEmpty logId (dl_date lg) s")
       (auto simp: getDay_def Cons split: sum.splits)
  then show ?thesis by blast
qed

lemma getDay_frame [simp]:
  "exercises (snd (getDay logId s)) = exercises s"
  "exercises_seq (snd (getDay logId s)) = exercises_seq s"
  "daily_logs (snd (getDay logId s)) = daily_logs s"
  "completed_sets (snd (getDay logId s)) = completed_sets s"
  "tracked_exercises (snd (getDay logId s)) = tracked_exercises s"
  "now (snd (getDay logId s)) = now s"
  "timer (snd (getDay logId s)) = timer s"
proof -
  from getDay_state [of logId s] show "exercises (snd (getDay logId s)) = exercises s"
    "exercises_seq (snd (getDay logId s)) = exercises_seq s"
    "daily_logs (snd (getDay logId s)) = daily_logs s"
    "completed_sets (snd (getDay logId s)) = completed_sets s"
    "tracked_exercises (snd (getDay logId s)) = tracked_exercises s"
    "now (snd (getDay logId s)) = now s"
    "timer (snd (getDay logId s)) = timer s"
    by auto
qed

lemma setTimerSeconds_frame [simp]:
  "exercises (setTimerSeconds n s) = exercises s"
  "exercises_seq (setTimerSeconds n s) = exercises_seq s"
  "daily_logs (setTimerSeconds n s) = daily_logs s"
  "planned_sets (setTimerSeconds n s) = planned_sets s"
  "completed_sets (setTimerSeconds n s) = completed_sets s"
  "split_sets (setTimerSeconds n s) = split_sets s"
  "tracked_exercises (setTimerSeconds n s) = tracked_exercises s"
  "now (setTimerSeconds n s) = now s"
  by (simp_all add: setTimerSeconds_def Let_def)

lemma get_api_timer_cong:
  assumes "timer s' = timer s" "now s' = now s"
  shows "get_api_timer s' = get_api_timer s"
  unfolding get_api_timer_def getTimerStatus_def assms ..

lemma get_api_timer_after_set:
  "get_api_timer (setTimerSeconds secs s) =
     \<lparr>tr_status = (if 0 < secs then running else expired),
      tr_remaining_seconds = of_int (max 0 secs),
      tr_ends_at = Some (now s + max 0 secs)\<rparr>"
  by (simp add: get_api_timer_def getTimerStatus_def setTimerSeconds_def Let_def js_or_def)

text \<open>
  The timer after the completion route. When the route answers, and the plan of the day
  was not empty before the request, the timer is set to the rest of the head of that
  plan, the set that was next when the request arrived (and is left alone when that
  rest is 0).
\<close>

lemma post_completed_rejected:
  assumes "getDay logId s = (Inr (Some v), s1)" "addCompleted rd logId item s1 = (Inl e, s2)"
  shows "post_completed rd logId item s = (Inl e, s2)"
  unfolding post_completed_def by (simp add: assms)

lemma post_completed_answer:
  "snd (case r4 of
          Inl e \<Rightarrow> (Inl e, s4)
        | Inr None \<Rightarrow> (Inl TypeError, s4)
        | Inr (Some updatedDayData) \<Rightarrow>
            (case filter (\<lambda>c. cr_id c = i) (dv_completed updatedDayData) of
               [] \<Rightarrow> (Inr (IdOnly i), s4)
             | c # _ \<Rightarrow>
                 (Inr (CompletedSet (cr_id c) (cr_exercise c) (cr_reps_done c)
                         (cr_load_done c) (cr_completed_at c)), s4))) = s4"
  by (simp split: sum.splits option.splits list.splits)

lemma post_completed_recorded:
  assumes "getDay logId s = (Inr (Some v), s1)" "dv_plan v = A # rest"
    "addCompleted rd logId item s1 = (Inr i, s2)"
  shows "snd (post_completed rd logId item s)
           = snd (getDay logId (if pl_rest A \<noteq> 0 then setTimerSeconds (pl_rest A) s2 else s2))"
proof -
  let ?s3 = "if pl_rest A \<noteq> 0 then setTimerSeconds (pl_rest A) s2 else s2"
  obtain r4 s4 where g: "getDay logId ?s3 = (r4, s4)" by force
  have "post_completed rd logId item s =
          (case r4 of
             Inl e \<Rightarrow> (Inl e, s4)
           | Inr None \<Rightarrow> (Inl TypeError, s4)
           | Inr (Some updatedDayData) \<Rightarrow>
               (case filter (\<lambda>c. cr_id c = i) (dv_completed updatedDayData) of
                  [] \<Rightarrow> (Inr (IdOnly i), s4)
                | c # _ \<Rightarrow>
                    (Inr (CompletedSet (cr_id c) (cr_exercise c) (cr_reps_done c)
                            (cr_load_done c) (cr_completed_at c)), s4)))"
  proof (cases "pl_rest A \<noteq> 0")
    case True
    with g have "getDay logId (setTimerSeconds (pl_rest A) s2) = (r4, s4)" by simp
    then show ?thesis unfolding post_completed_def using True by (simp add: assms)
  next
    case False
    with g have "getDay logId s2 = (r4, s4)" by simp
    then show ?thesis unfolding post_completed_def using False by (simp add: assms)
  qed
  then have "snd (post_completed rd logId item s) = s4"
    by (simp only: post_completed_answer)
  with g show ?thesis by simp
qed

lemma post_completed_timer:
  assumes day: "getDay logId s = (Inr (Some v), s1)" and queue: "dv_plan v = A # rest"
    and ok: "post_completed rd logId item s = (Inr resp, s')"
  shows "get_api_timer s' =
           (if pl_rest A \<noteq> 0
            then \<lparr>tr_status = (if 0 < pl_rest A then running else expired),
                  tr_remaining_seconds = of_int (max 0 (pl_rest A)),
                  tr_ends_at = Some (now s + max 0 (pl_rest A))\<rparr>
            else get_api_timer s)"
proof -
  from day have s1: "s1 = snd (getDay logId s)" by simp
  obtain r2 s2 where add: "addCompleted rd logId item s1 = (r2, s2)" by force
  obtain i where r2: "r2 = Inr i"
  proof (cases r2)
    case (Inl e)
    from post_completed_rejected [OF day add [unfolded Inl]] ok show ?thesis by simp
  next
    case (Inr i)
    then show ?thesis by (rule that)
  qed
  from add have s2: "s2 = snd (addCompleted rd logId item s1)" by simp
  let ?s3 = "if pl_rest A \<noteq> 0 then setTimerSeconds (pl_rest A) s2 else s2"
  have s': "s' = snd (getDay logId ?s3)"
    using post_completed_recorded [OF day queue add [unfolded r2]] ok by simp
  have n2: "now s2 = now s" "timer s2 = timer s" unfolding s2 s1 by simp_all
  have "get_api_timer s' = get_api_timer ?s3"
    unfolding s' by (rule get_api_timer_cong) simp_all
  also have "\<dots> = (if pl_rest A \<noteq> 0
            then \<lparr>tr_status = (if 0 < pl_rest A then running else expired),
                  tr_remaining_seconds = of_int (max 0 (pl_rest A)),
                  tr_ends_at = Some (now s + max 0 (pl_rest A))\<rparr>
            else get_api_timer s)"
  proof (cases "pl_rest A \<noteq> 0")
    case True
    then show ?thesis using n2 by (simp add: get_api_timer_after_set)
  next
    case False
    have "get_api_timer s2 = get_api_timer s" by (rule get_api_timer_cong) (fact n2)+
    with False show ?thesis by simp
  qed
  finally show ?thesis .
qed

text \<open>
  Claim C1 has the timer set to the rest of \<open>B\<close>, the set that is next after the
  completion. On a day whose active queue is \<open>[A, B]\<close>, \<open>A\<close> resting 60 seconds and \<open>B\<close>
  90, the request that completes \<open>A\<close>, linked, is answered with the completed set, which
  references \<open>A\<close>; the queue is then \<open>[B]\<close>; and the timer runs for 60 seconds, the rest
  of \<open>A\<close>, not for 90.
\<close>

theorem completion_sets_timer_to_rest_of_completed:
  "map pl_id (plan_query ''d1'' queue_db) = [1, 2]
   \<and> map pl_rest (plan_query ''d1'' queue_db) = [60, 90]
   \<and> ci_planned_set_id complete_A = JNum 1
   \<and> post_completed whole_loads ''d1'' complete_A queue_db
       = (Inr (CompletedSet 1 ''Squat'' (Some 5) (Some 100) 1000), done_db)
   \<and> map cs_planned_set_id (completed_sets done_db) = [Some 1]
   \<and> map pl_id (plan_query ''d1'' done_db) = [2]
   \<and> get_api_timer done_db =
        \<lparr>tr_status = running, tr_remaining_seconds = 60, tr_ends_at = Some 1060\<rparr>
   \<and> tr_remaining_seconds (get_api_timer done_db) \<noteq> 90"
  by code_simp

subsection \<open>The default rest\<close>

lemma required_Some: "required x = Some v \<longleftrightarrow> x = PVal v"
  by (cases x) auto

lemma int4_60: "int4 (JNum 60) = PVal 60"
  by (simp add: in_int4_def)

lemma set_columns_rest:
  assumes "set_columns rd item = Some (order_num, reps, load, rest, relative)"
  shows "(\<not> truthy (it_rest item) \<longrightarrow> rest = 60)
     \<and> (truthy (it_rest item) \<longrightarrow> int4 (it_rest item) = PVal rest)"
proof (cases "truthy (it_rest item)")
  case True
  with assms show ?thesis
    by (auto simp: set_columns_def js_or_def Let_def required_Some split: option.splits)
next
  case False
  with assms show ?thesis
    by (auto simp: set_columns_def js_or_def Let_def required_Some in_int4_def split: option.splits)
qed

lemma number_rest_not_zero:
  assumes "it_rest item = JNum q" "truthy (it_rest item)" "int4 (it_rest item) = PVal rest"
  shows "rest \<noteq> 0"
proof
  assume "rest = 0"
  with assms have "\<lfloor>q\<rfloor> = 0" "of_int \<lfloor>q\<rfloor> = q" by (auto split: if_splits)
  then have "q = 0" by simp
  with assms(1,2) show False by simp
qed

lemma addPlan_inserted:
  assumes "addPlan rd logId item s = (Inr i, s')"
  shows "\<exists>order_num reps load rest relative exId.
     set_columns rd item = Some (order_num, reps, load, rest, relative)
     \<and> planned_sets s' = planned_sets s @
           [\<lparr>ps_id = i, ps_log_id = logId, ps_exercise_id = exId, ps_order_num = order_num,
             ps_reps = reps, ps_load = load, ps_rest = rest, ps_relative = relative\<rparr>]"
proof -
  obtain r s1 where g: "getExerciseId (it_exercise item) s = (r, s1)" by force
  then have p1: "planned_sets s1 = planned_sets s"
    using getExerciseId_frame(2) [of "it_exercise item" s] by simp
  from assms g p1 show ?thesis
    by (auto simp: addPlan_def Let_def split: sum.splits option.splits if_splits)
qed

lemma updatePlan_updated:
  assumes "updatePlan rd i item s = (Inr u, s')" and "P \<in> set (planned_sets s')" "ps_id P = i"
  shows "\<exists>order_num reps load rest relative.
     set_columns rd item = Some (order_num, reps, load, rest, relative) \<and> ps_rest P = rest"
proof -
  obtain r s1 where g: "getExerciseId (it_exercise item) s = (r, s1)" by force
  from assms(1) g obtain exId where r: "r = Inr exId"
    by (cases r) (simp_all add: updatePlan_def)
  from assms(1) g r obtain order_num reps load rest relative where
    sc: "set_columns rd item = Some (order_num, reps, load, rest, relative)"
    by (cases "set_columns rd item") (auto simp: updatePlan_def)
  let ?f = "\<lambda>p. if ps_id p = i
                then p\<lparr>ps_exercise_id := exId, ps_order_num := order_num,
                       ps_reps := reps, ps_load := load, ps_rest := rest,
                       ps_relative := relative\<rparr>
                else p"
  from assms(1) g r sc have "planned_sets s' = map ?f (planned_sets s1)"
    by (auto simp: updatePlan_def)
  with assms(2) have "P \<in> ?f ` set (planned_sets s1)" by simp
  then obtain p where p: "P = ?f p" by (rule imageE)
  have "ps_rest P = rest"
  proof (cases "ps_id p = i")
    case True
    with p show ?thesis by simp
  next
    case False
    with p assms(3) show ?thesis by simp
  qed
  with sc show ?thesis by blast
qed

lemma applySplitIfEmpty_copies:
  assumes "filter (\<lambda>p. ps_log_id p = logId) (planned_sets s) = []"
    and "applySplitIfEmpty logId logDate s = (Inr u, s')"
  shows "\<exists>new. planned_sets s' = planned_sets s @ new
     \<and> map ps_rest new = map ss_rest (split_rows (getDay_of_week logDate) s)
     \<and> map ps_load new = map ss_load (split_rows (getDay_of_week logDate) s)
     \<and> map ps_reps new = map ss_reps (split_rows (getDay_of_week logDate) s)
     \<and> map ps_order_num new = map ss_order_num (split_rows (getDay_of_week logDate) s)
     \<and> map ps_relative new = map ss_relative (split_rows (getDay_of_week logDate) s)"
proof -
  from assms have "s' = clone_rows logId (split_rows (getDay_of_week logDate) s) s"
    by (auto simp: applySplitIfEmpty_def Let_def split: if_splits sum.splits)
  with clone_rows_planned [of logId "split_rows (getDay_of_week logDate) s" s]
  show ?thesis by blast
qed

text \<open>
  Claim C10, as the code has it. A planned set that \<^verbatim>\<open>addPlan\<close> inserts, and one that
  \<^verbatim>\<open>updatePlan\<close> updates, has a rest of 60 when the supplied rest is falsy (the number
  0, \<^verbatim>\<open>null\<close> and an absent field are), and otherwise the rest that the column reads
  from the supplied value; from a number that is never 0. \<^verbatim>\<open>applySplitIfEmpty\<close>
  copies the rests of the template rows as they are. (A rest supplied as the string
  \<open>"0"\<close> is truthy and is stored as 0: see the counterexample.)
\<close>

theorem rest_default:
  "(addPlan rd logId item s = (Inr i, sa) \<longrightarrow>
      (\<exists>P. planned_sets sa = planned_sets s @ [P] \<and> ps_id P = i
         \<and> (\<not> truthy (it_rest item) \<longrightarrow> ps_rest P = 60)
         \<and> (truthy (it_rest item) \<longrightarrow> int4 (it_rest item) = PVal (ps_rest P))
         \<and> ((\<exists>q. it_rest item = JNum q) \<longrightarrow> ps_rest P \<noteq> 0)))
   \<and> (updatePlan rd i item s = (Inr u, sb) \<longrightarrow>
      (\<forall>P \<in> set (planned_sets sb). ps_id P = i \<longrightarrow>
         (\<not> truthy (it_rest item) \<longrightarrow> ps_rest P = 60)
         \<and> (truthy (it_rest item) \<longrightarrow> int4 (it_rest item) = PVal (ps_rest P))
         \<and> ((\<exists>q. it_rest item = JNum q) \<longrightarrow> ps_rest P \<noteq> 0)))
   \<and> (it_rest item = JNum 0 \<or> it_rest item = JNull \<or> it_rest item = JUndefined \<longrightarrow>
        \<not> truthy (it_rest item))
   \<and> (filter (\<lambda>p. ps_log_id p = logId) (planned_sets s) = []
        \<and> applySplitIfEmpty logId logDate s = (Inr u', sc) \<longrightarrow>
      (\<exists>new. planned_sets sc = planned_sets s @ new
         \<and> map ps_rest new = map ss_rest (split_rows (getDay_of_week logDate) s)))"
proof -
  have rest: "(\<not> truthy (it_rest item) \<longrightarrow> rest = 60)
         \<and> (truthy (it_rest item) \<longrightarrow> int4 (it_rest item) = PVal rest)
         \<and> ((\<exists>q. it_rest item = JNum q) \<longrightarrow> rest \<noteq> 0)"
    if "set_columns rd item = Some (order_num, reps, load, rest, relative)"
    for order_num reps load rest relative
    using set_columns_rest [OF that] number_rest_not_zero [of item _ rest] by auto
  have a: "\<exists>P. planned_sets sa = planned_sets s @ [P] \<and> ps_id P = i
         \<and> (\<not> truthy (it_rest item) \<longrightarrow> ps_rest P = 60)
         \<and> (truthy (it_rest item) \<longrightarrow> int4 (it_rest item) = PVal (ps_rest P))
         \<and> ((\<exists>q. it_rest item = JNum q) \<longrightarrow> ps_rest P \<noteq> 0)"
    if ok: "addPlan rd logId item s = (Inr i, sa)"
  proof -
    from addPlan_inserted [OF ok] obtain order_num reps load rest relative exId where
      sc: "set_columns rd item = Some (order_num, reps, load, rest, relative)"
      and pl: "planned_sets sa = planned_sets s @
           [\<lparr>ps_id = i, ps_log_id = logId, ps_exercise_id = exId, ps_order_num = order_num,
             ps_reps = reps, ps_load = load, ps_rest = rest, ps_relative = relative\<rparr>]"
      by blast
    from rest [OF sc] pl show ?thesis by simp
  qed
  have b: "(\<not> truthy (it_rest item) \<longrightarrow> ps_rest P = 60)
         \<and> (truthy (it_rest item) \<longrightarrow> int4 (it_rest item) = PVal (ps_rest P))
         \<and> ((\<exists>q. it_rest item = JNum q) \<longrightarrow> ps_rest P \<noteq> 0)"
    if ok: "updatePlan rd i item s = (Inr u, sb)" and P: "P \<in> set (planned_sets sb)" "ps_id P = i"
    for P
  proof -
    from updatePlan_updated [OF ok P] obtain order_num reps load rest relative where
      sc: "set_columns rd item = Some (order_num, reps, load, rest, relative)" "ps_rest P = rest"
      by blast
    from rest [OF sc(1)] sc(2) show ?thesis by simp
  qed
  have c: "it_rest item = JNum 0 \<or> it_rest item = JNull \<or> it_rest item = JUndefined \<longrightarrow>
        \<not> truthy (it_rest item)" by auto
  have d: "\<exists>new. planned_sets sc = planned_sets s @ new
         \<and> map ps_rest new = map ss_rest (split_rows (getDay_of_week logDate) s)"
    if "filter (\<lambda>p. ps_log_id p = logId) (planned_sets s) = []"
      "applySplitIfEmpty logId logDate s = (Inr u', sc)"
    using applySplitIfEmpty_copies [OF that] by blast
  from a b c d show ?thesis by blast
qed

theorem rest_default_witness:
  "map ps_rest (planned_sets
      (snd (addPlan whole_loads ''d1'' (rest_zero_item\<lparr>it_rest := JNum 0\<rparr>) queue_db)))
     = [60, 90, 60]
   \<and> map ps_rest (planned_sets
        (snd (applySplitIfEmpty ''d1'' 19000 (snd (ensureDay ''d1'' 19000 template_db)))))
     = [0, 90]"
proof -
  let ?item = "rest_zero_item\<lparr>it_rest := JNum 0\<rparr>"
  let ?s = "snd (ensureDay ''d1'' 19000 template_db)"
  have ok: "addPlan whole_loads ''d1'' ?item queue_db
              = (Inr 3, snd (addPlan whole_loads ''d1'' ?item queue_db))"
    by code_simp
  have falsy: "\<not> truthy (it_rest ?item)" by simp
  have old: "map ps_rest (planned_sets queue_db) = [60, 90]" by code_simp
  have e: "filter (\<lambda>p. ps_log_id p = ''d1'') (planned_sets ?s) = []" by code_simp
  have ap: "applySplitIfEmpty ''d1'' 19000 ?s = (Inr (), snd (applySplitIfEmpty ''d1'' 19000 ?s))"
    by code_simp
  have rows: "map ss_rest (split_rows (getDay_of_week 19000) ?s) = [0, 90]" by code_simp
  have none: "planned_sets ?s = []" by code_simp
  note t = rest_default [where rd = whole_loads and logId = "''d1''" and item = ?item
      and s = queue_db and i = 3 and sa = "snd (addPlan whole_loads ''d1'' ?item queue_db)"]
  from t ok falsy obtain P where
    "planned_sets (snd (addPlan whole_loads ''d1'' ?item queue_db)) = planned_sets queue_db @ [P]"
    "ps_rest P = 60" by blast
  with old have one: "map ps_rest (planned_sets (snd (addPlan whole_loads ''d1'' ?item queue_db)))
      = [60, 90, 60]"
    by simp
  note t' = rest_default [where logId = "''d1''" and s = ?s and logDate = 19000 and u' = "()"
      and sc = "snd (applySplitIfEmpty ''d1'' 19000 ?s)"]
  from t' e ap obtain new where
    "planned_sets (snd (applySplitIfEmpty ''d1'' 19000 ?s)) = planned_sets ?s @ new"
    "map ps_rest new = map ss_rest (split_rows (getDay_of_week 19000) ?s)" by blast
  with rows none have two: "map ps_rest (planned_sets (snd (applySplitIfEmpty ''d1'' 19000 ?s))) = [0, 90]"
    by simp
  from one two show ?thesis by simp
qed

text \<open>Claim C10 as stated has no rest of 0 stored through \<^verbatim>\<open>addPlan\<close>. The form for a
  new planned set sends its inputs as strings; a rest of \<open>"0"\<close> is a non-empty string,
  so \<^verbatim>\<open>item.rest || 60\<close> keeps it, and the column stores 0.\<close>

theorem rest_zero_string_counterexample:
  "it_rest rest_zero_item = JStr ''0''
   \<and> fst (addPlan whole_loads ''d1'' rest_zero_item queue_db) = Inr 3
   \<and> map ps_rest (planned_sets (snd (addPlan whole_loads ''d1'' rest_zero_item queue_db))) = [60, 90, 0]"
  by code_simp

subsection \<open>Writes without validation\<close>

lemma getExerciseId_found:
  assumes "list_ex (\<lambda>e. lower (ex_name e) = lower name) (exercises s)"
  shows "\<exists>e \<in> set (exercises s). lower (ex_name e) = lower name
           \<and> getExerciseId (Some name) s = (Inr (ex_id e), s)"
proof -
  from assms have "filter (\<lambda>e. lower (ex_name e) = lower name) (exercises s) \<noteq> []"
    by (auto simp: list_ex_iff filter_empty_conv)
  then obtain e es where f: "filter (\<lambda>e. lower (ex_name e) = lower name) (exercises s) = e # es"
    by (cases "filter (\<lambda>e. lower (ex_name e) = lower name) (exercises s)") auto
  then have "e \<in> set (filter (\<lambda>e. lower (ex_name e) = lower name) (exercises s))" by simp
  then have "e \<in> set (exercises s)" "lower (ex_name e) = lower name" by simp_all
  moreover have "getExerciseId (Some name) s = (Inr (ex_id e), s)"
    by (simp add: getExerciseId_def f)
  ultimately show ?thesis by blast
qed

lemma getExerciseId_created:
  assumes "\<not> list_ex (\<lambda>e. lower (ex_name e) = lower name) (exercises s)" "length name \<le> 255"
  shows "getExerciseId (Some name) s =
           (Inr (exercises_seq s + 1),
            s\<lparr>exercises := exercises s @ [\<lparr>ex_id = exercises_seq s + 1, ex_name = name\<rparr>],
              exercises_seq := exercises_seq s + 1\<rparr>)"
proof -
  from assms(1) have "filter (\<lambda>e. lower (ex_name e) = lower name) (exercises s) = []"
    by (auto simp: list_ex_iff filter_empty_conv)
  with assms(2) show ?thesis by (simp add: getExerciseId_def Let_def)
qed

lemma addPlan_exercises:
  "exercises (snd (addPlan rd logId item s)) = exercises (snd (getExerciseId (it_exercise item) s))"
  by (simp add: addPlan_def Let_def split: option.splits prod.splits sum.splits)

lemma addSplit_exercises:
  "exercises (snd (addSplit rd dayOfWeek item s))
     = exercises (snd (getExerciseId (it_exercise item) s))"
  by (simp add: addSplit_def Let_def split: option.splits prod.splits sum.splits)

lemma addPlan_accepts:
  assumes "getExerciseId (it_exercise item) s = (Inr exId, s1)"
    and "set_columns rd item = Some (order_num, reps, load, rest, relative)"
    and "list_ex (\<lambda>d. dl_id d = logId) (daily_logs s)"
  shows "addPlan rd logId item s =
           (Inr (planned_sets_seq s + 1),
            s1\<lparr>planned_sets := planned_sets s @
                  [\<lparr>ps_id = planned_sets_seq s + 1, ps_log_id = logId, ps_exercise_id = exId,
                    ps_order_num = order_num, ps_reps = reps, ps_load = load, ps_rest = rest,
                    ps_relative = relative\<rparr>],
                planned_sets_seq := planned_sets_seq s + 1\<rparr>)"
proof -
  from assms(1) have s1: "s1 = snd (getExerciseId (it_exercise item) s)" by simp
  have d: "list_ex (\<lambda>d. dl_id d = logId) (daily_logs s1)" using assms(3) s1 by simp
  have p: "planned_sets s1 = planned_sets s" "planned_sets_seq s1 = planned_sets_seq s"
    using s1 by simp_all
  show ?thesis unfolding addPlan_def by (simp add: assms(1,2) d p Let_def)
qed

lemma addPlan_rejects:
  assumes "getExerciseId (it_exercise item) s = (Inr exId, s1)"
    and "set_columns rd item = None \<or> \<not> list_ex (\<lambda>d. dl_id d = logId) (daily_logs s)"
  shows "addPlan rd logId item s = (Inl StoreError, s1)"
proof -
  from assms(1) have s1: "s1 = snd (getExerciseId (it_exercise item) s)" by simp
  have d: "daily_logs s1 = daily_logs s" using s1 by simp
  show ?thesis
  proof (cases "set_columns rd item")
    case None
    then show ?thesis unfolding addPlan_def by (simp add: assms(1))
  next
    case (Some cols)
    with assms(2) have "\<not> list_ex (\<lambda>d. dl_id d = logId) (daily_logs s1)" using d by simp
    then show ?thesis unfolding addPlan_def by (cases cols) (simp add: assms(1) Some)
  qed
qed

lemma addSplit_accepts:
  assumes "getExerciseId (it_exercise item) s = (Inr exId, s1)"
    and "set_columns rd item = Some (order_num, reps, load, rest, relative)"
    and "in_int4 dayOfWeek"
  shows "addSplit rd dayOfWeek item s =
           (Inr (split_sets_seq s + 1),
            s1\<lparr>split_sets := split_sets s @
                  [\<lparr>ss_id = split_sets_seq s + 1, ss_day_of_week = dayOfWeek,
                    ss_exercise_id = exId, ss_order_num = order_num, ss_reps = reps,
                    ss_load = load, ss_rest = rest, ss_relative = relative\<rparr>],
                split_sets_seq := split_sets_seq s + 1\<rparr>)"
proof -
  from assms(1) have s1: "s1 = snd (getExerciseId (it_exercise item) s)" by simp
  have p: "split_sets s1 = split_sets s" "split_sets_seq s1 = split_sets_seq s"
    using s1 by simp_all
  show ?thesis unfolding addSplit_def by (simp add: assms p Let_def)
qed

lemma addSplit_rejects:
  assumes "getExerciseId (it_exercise item) s = (Inr exId, s1)"
    and "set_columns rd item = None \<or> \<not> in_int4 dayOfWeek"
  shows "addSplit rd dayOfWeek item s = (Inl StoreError, s1)"
proof (cases "set_columns rd item")
  case None
  then show ?thesis unfolding addSplit_def by (simp add: assms(1))
next
  case (Some cols)
  with assms(2) have "\<not> in_int4 dayOfWeek" by simp
  then show ?thesis unfolding addSplit_def by (cases cols) (simp add: assms(1) Some)
qed

lemma addCompleted_accepts:
  assumes "getExerciseId (ci_exercise item) s = (Inr exId, s1)"
    and "completed_columns rd item = Some (planned_set_id, reps_done, load_done)"
    and "list_ex (\<lambda>d. dl_id d = logId) (daily_logs s)"
    and "\<forall>p. planned_set_id = Some p \<longrightarrow> list_ex (\<lambda>ps. ps_id ps = p) (planned_sets s)"
  shows "addCompleted rd logId item s =
           (Inr (completed_sets_seq s + 1),
            s1\<lparr>completed_sets := completed_sets s @
                  [\<lparr>cs_id = completed_sets_seq s + 1, cs_log_id = logId, cs_exercise_id = exId,
                    cs_planned_set_id = planned_set_id, cs_reps_done = reps_done,
                    cs_load_done = load_done, cs_completed_at = now s\<rparr>],
                completed_sets_seq := completed_sets_seq s + 1\<rparr>)"
proof -
  from assms(1) have s1: "s1 = snd (getExerciseId (ci_exercise item) s)" by simp
  have d: "list_ex (\<lambda>d. dl_id d = logId) (daily_logs s1)" using assms(3) s1 by simp
  have p: "planned_sets s1 = planned_sets s" "completed_sets s1 = completed_sets s"
    "completed_sets_seq s1 = completed_sets_seq s" "now s1 = now s"
    using s1 by simp_all
  have k: "\<not> (case planned_set_id of
               None \<Rightarrow> False
             | Some p \<Rightarrow> \<not> list_ex (\<lambda>ps. ps_id ps = p) (planned_sets s1))"
    unfolding p using assms(4) by (cases planned_set_id) simp_all
  show ?thesis unfolding addCompleted_def by (simp add: assms(1,2) d p(2-) k Let_def)
qed

lemma addCompleted_rejects:
  assumes "getExerciseId (ci_exercise item) s = (Inr exId, s1)"
    and "completed_columns rd item = None
         \<or> \<not> list_ex (\<lambda>d. dl_id d = logId) (daily_logs s)
         \<or> (\<exists>p. (\<exists>reps_done load_done.
                    completed_columns rd item = Some (Some p, reps_done, load_done))
                \<and> \<not> list_ex (\<lambda>ps. ps_id ps = p) (planned_sets s))"
  shows "addCompleted rd logId item s = (Inl StoreError, s1)"
proof -
  from assms(1) have s1: "s1 = snd (getExerciseId (ci_exercise item) s)" by simp
  have d: "daily_logs s1 = daily_logs s" "planned_sets s1 = planned_sets s" using s1 by simp_all
  show ?thesis
  proof (cases "completed_columns rd item")
    case None
    then show ?thesis unfolding addCompleted_def by (simp add: assms(1))
  next
    case (Some cols)
    obtain planned_set_id reps_done load_done where
      cols: "cols = (planned_set_id, reps_done, load_done)" by (cases cols)
    from assms(2) Some cols
    have "\<not> list_ex (\<lambda>d. dl_id d = logId) (daily_logs s1)
          \<or> (case planned_set_id of
                None \<Rightarrow> False
              | Some p \<Rightarrow> \<not> list_ex (\<lambda>ps. ps_id ps = p) (planned_sets s1))"
      unfolding d by auto
    then show ?thesis unfolding addCompleted_def by (simp add: assms(1) Some cols)
  qed
qed

lemma set_columns_rejects:
  assumes "(\<forall>n. int4 (it_reps item) \<noteq> PVal n) \<or> rd (it_load item) = None
           \<or> it_load item = JNull \<or> it_load item = JUndefined"
  shows "set_columns rd item = None"
proof -
  from assms have "required (int4 (it_reps item)) = None \<or> required (float4 rd (it_load item)) = None"
    by (cases "int4 (it_reps item)") (auto simp: float4_def)
  then show ?thesis by (auto simp: set_columns_def Let_def split: option.splits)
qed

lemma completed_columns_rejects:
  assumes "int4 (ci_reps_done item) = PRejected
           \<or> rd (ci_load_done item) = None \<and> ci_load_done item \<noteq> JNull
               \<and> ci_load_done item \<noteq> JUndefined"
  shows "completed_columns rd item = None"
proof -
  from assms have "nullable (int4 (ci_reps_done item)) = None
                   \<or> nullable (float4 rd (ci_load_done item)) = None"
    by (auto simp: float4_def)
  then show ?thesis by (auto simp: completed_columns_def split: option.splits)
qed

text \<open>
  Claim C8, as the code has it. \<^verbatim>\<open>addPlan\<close>, \<^verbatim>\<open>addSplit\<close> and \<^verbatim>\<open>addCompleted\<close> do
  not validate. Under any exercise name that the column holds, the empty one too, each
  first gets or creates the exercise, whatever the other fields are: the first exercise
  of that name, letter case aside, and the store as it is; or, when there is none, a new
  exercise of exactly that name. It then inserts its row exactly when the columns can
  read every parameter and the foreign keys hold (the day exists, for \<^verbatim>\<open>addPlan\<close> and
  \<^verbatim>\<open>addCompleted\<close>; the planned set exists, for a linked \<^verbatim>\<open>addCompleted\<close>);
  \<^verbatim>\<open>addSplit\<close> takes any weekday index that the column holds. Otherwise the statement
  fails, a store error, and the store is left as \<^verbatim>\<open>getExerciseId\<close> left it: the
  exercise written, nothing else. Repetitions that the \<^verbatim>\<open>INTEGER\<close> column cannot read
  and a load that the \<^verbatim>\<open>REAL\<close> column cannot read (or that is missing, for a planned
  set or a template row) are such failures.
\<close>

theorem writes_unvalidated:
  assumes "it_exercise item = Some name" "ci_exercise citem = Some name" "length name \<le> 255"
  shows "(list_ex (\<lambda>e. lower (ex_name e) = lower name) (exercises s) \<longrightarrow>
            (\<exists>e \<in> set (exercises s). lower (ex_name e) = lower name
               \<and> getExerciseId (Some name) s = (Inr (ex_id e), s)))
   \<and> (\<not> list_ex (\<lambda>e. lower (ex_name e) = lower name) (exercises s) \<longrightarrow>
        getExerciseId (Some name) s =
          (Inr (exercises_seq s + 1),
           s\<lparr>exercises := exercises s @ [\<lparr>ex_id = exercises_seq s + 1, ex_name = name\<rparr>],
             exercises_seq := exercises_seq s + 1\<rparr>))
   \<and> (\<exists>exId s1. getExerciseId (Some name) s = (Inr exId, s1)
        \<and> (set_columns rd item = Some (order_num, reps, load, rest, relative)
             \<and> list_ex (\<lambda>d. dl_id d = logId) (daily_logs s) \<longrightarrow>
            addPlan rd logId item s =
              (Inr (planned_sets_seq s + 1),
               s1\<lparr>planned_sets := planned_sets s @
                     [\<lparr>ps_id = planned_sets_seq s + 1, ps_log_id = logId,
                       ps_exercise_id = exId, ps_order_num = order_num, ps_reps = reps,
                       ps_load = load, ps_rest = rest, ps_relative = relative\<rparr>],
                   planned_sets_seq := planned_sets_seq s + 1\<rparr>))
        \<and> (set_columns rd item = None \<or> \<not> list_ex (\<lambda>d. dl_id d = logId) (daily_logs s) \<longrightarrow>
            addPlan rd logId item s = (Inl StoreError, s1))
        \<and> (set_columns rd item = Some (order_num, reps, load, rest, relative)
             \<and> in_int4 dayOfWeek \<longrightarrow>
            addSplit rd dayOfWeek item s =
              (Inr (split_sets_seq s + 1),
               s1\<lparr>split_sets := split_sets s @
                     [\<lparr>ss_id = split_sets_seq s + 1, ss_day_of_week = dayOfWeek,
                       ss_exercise_id = exId, ss_order_num = order_num, ss_reps = reps,
                       ss_load = load, ss_rest = rest, ss_relative = relative\<rparr>],
                   split_sets_seq := split_sets_seq s + 1\<rparr>))
        \<and> (set_columns rd item = None \<or> \<not> in_int4 dayOfWeek \<longrightarrow>
            addSplit rd dayOfWeek item s = (Inl StoreError, s1))
        \<and> (completed_columns rd citem = Some (planned_set_id, reps_done, load_done)
             \<and> list_ex (\<lambda>d. dl_id d = logId) (daily_logs s)
             \<and> (\<forall>p. planned_set_id = Some p \<longrightarrow>
                    list_ex (\<lambda>ps. ps_id ps = p) (planned_sets s)) \<longrightarrow>
            addCompleted rd logId citem s =
              (Inr (completed_sets_seq s + 1),
               s1\<lparr>completed_sets := completed_sets s @
                     [\<lparr>cs_id = completed_sets_seq s + 1, cs_log_id = logId,
                       cs_exercise_id = exId, cs_planned_set_id = planned_set_id,
                       cs_reps_done = reps_done, cs_load_done = load_done,
                       cs_completed_at = now s\<rparr>],
                   completed_sets_seq := completed_sets_seq s + 1\<rparr>))
        \<and> (completed_columns rd citem = None
             \<or> \<not> list_ex (\<lambda>d. dl_id d = logId) (daily_logs s)
             \<or> (\<exists>p. (\<exists>reps_done load_done.
                        completed_columns rd citem = Some (Some p, reps_done, load_done))
                    \<and> \<not> list_ex (\<lambda>ps. ps_id ps = p) (planned_sets s)) \<longrightarrow>
            addCompleted rd logId citem s = (Inl StoreError, s1)))
   \<and> ((\<forall>n. int4 (it_reps item) \<noteq> PVal n) \<or> rd (it_load item) = None
         \<or> it_load item = JNull \<or> it_load item = JUndefined \<longrightarrow>
        set_columns rd item = None)
   \<and> (int4 (ci_reps_done citem) = PRejected
         \<or> rd (ci_load_done citem) = None \<and> ci_load_done citem \<noteq> JNull
             \<and> ci_load_done citem \<noteq> JUndefined \<longrightarrow>
        completed_columns rd citem = None)"
proof -
  have a: "list_ex (\<lambda>e. lower (ex_name e) = lower name) (exercises s) \<longrightarrow>
            (\<exists>e \<in> set (exercises s). lower (ex_name e) = lower name
               \<and> getExerciseId (Some name) s = (Inr (ex_id e), s))"
    using getExerciseId_found [of name s] by blast
  have b: "\<not> list_ex (\<lambda>e. lower (ex_name e) = lower name) (exercises s) \<longrightarrow>
        getExerciseId (Some name) s =
          (Inr (exercises_seq s + 1),
           s\<lparr>exercises := exercises s @ [\<lparr>ex_id = exercises_seq s + 1, ex_name = name\<rparr>],
             exercises_seq := exercises_seq s + 1\<rparr>)"
    using getExerciseId_created [OF _ assms(3), of s] by blast
  from getExerciseId_succeeds [OF refl assms(3), of s] obtain exId s1 where
    g: "getExerciseId (Some name) s = (Inr exId, s1)" by blast
  have gi: "getExerciseId (it_exercise item) s = (Inr exId, s1)" using g assms(1) by simp
  have gc: "getExerciseId (ci_exercise citem) s = (Inr exId, s1)" using g assms(2) by simp
  have c1: "set_columns rd item = Some (order_num, reps, load, rest, relative)
             \<and> list_ex (\<lambda>d. dl_id d = logId) (daily_logs s) \<longrightarrow>
            addPlan rd logId item s =
              (Inr (planned_sets_seq s + 1),
               s1\<lparr>planned_sets := planned_sets s @
                     [\<lparr>ps_id = planned_sets_seq s + 1, ps_log_id = logId,
                       ps_exercise_id = exId, ps_order_num = order_num, ps_reps = reps,
                       ps_load = load, ps_rest = rest, ps_relative = relative\<rparr>],
                   planned_sets_seq := planned_sets_seq s + 1\<rparr>)"
    using addPlan_accepts [OF gi, of rd order_num reps load rest relative logId] by blast
  have c2: "set_columns rd item = None \<or> \<not> list_ex (\<lambda>d. dl_id d = logId) (daily_logs s) \<longrightarrow>
            addPlan rd logId item s = (Inl StoreError, s1)"
    using addPlan_rejects [OF gi, of rd logId] by blast
  have c3: "set_columns rd item = Some (order_num, reps, load, rest, relative)
             \<and> in_int4 dayOfWeek \<longrightarrow>
            addSplit rd dayOfWeek item s =
              (Inr (split_sets_seq s + 1),
               s1\<lparr>split_sets := split_sets s @
                     [\<lparr>ss_id = split_sets_seq s + 1, ss_day_of_week = dayOfWeek,
                       ss_exercise_id = exId, ss_order_num = order_num, ss_reps = reps,
                       ss_load = load, ss_rest = rest, ss_relative = relative\<rparr>],
                   split_sets_seq := split_sets_seq s + 1\<rparr>)"
    using addSplit_accepts [OF gi, of rd order_num reps load rest relative dayOfWeek] by blast
  have c4: "set_columns rd item = None \<or> \<not> in_int4 dayOfWeek \<longrightarrow>
            addSplit rd dayOfWeek item s = (Inl StoreError, s1)"
    using addSplit_rejects [OF gi, of rd dayOfWeek] by blast
  have c5: "completed_columns rd citem = Some (planned_set_id, reps_done, load_done)
             \<and> list_ex (\<lambda>d. dl_id d = logId) (daily_logs s)
             \<and> (\<forall>p. planned_set_id = Some p \<longrightarrow>
                    list_ex (\<lambda>ps. ps_id ps = p) (planned_sets s)) \<longrightarrow>
            addCompleted rd logId citem s =
              (Inr (completed_sets_seq s + 1),
               s1\<lparr>completed_sets := completed_sets s @
                     [\<lparr>cs_id = completed_sets_seq s + 1, cs_log_id = logId,
                       cs_exercise_id = exId, cs_planned_set_id = planned_set_id,
                       cs_reps_done = reps_done, cs_load_done = load_done,
                       cs_completed_at = now s\<rparr>],
                   completed_sets_seq := completed_sets_seq s + 1\<rparr>)"
    using addCompleted_accepts [OF gc, of rd planned_set_id reps_done load_done logId] by blast
  have c6: "completed_columns rd citem = None
             \<or> \<not> list_ex (\<lambda>d. dl_id d = logId) (daily_logs s)
             \<or> (\<exists>p. (\<exists>reps_done load_done.
                        completed_columns rd citem = Some (Some p, reps_done, load_done))
                    \<and> \<not> list_ex (\<lambda>ps. ps_id ps = p) (planned_sets s)) \<longrightarrow>
            addCompleted rd logId citem s = (Inl StoreError, s1)"
    using addCompleted_rejects [OF gc, of rd logId] by blast
  have d: "(\<forall>n. int4 (it_reps item) \<noteq> PVal n) \<or> rd (it_load item) = None
         \<or> it_load item = JNull \<or> it_load item = JUndefined \<longrightarrow>
        set_columns rd item = None"
    using set_columns_rejects [of item rd] by blast
  have e: "int4 (ci_reps_done citem) = PRejected
         \<or> rd (ci_load_done citem) = None \<and> ci_load_done citem \<noteq> JNull
             \<and> ci_load_done citem \<noteq> JUndefined \<longrightarrow>
        completed_columns rd citem = None"
    using completed_columns_rejects [of citem rd] by blast
  show ?thesis
    apply (intro conjI)
       apply (fact a)
      apply (fact b)
     apply (rule exI [of _ exId], rule exI [of _ s1])
     apply (intro conjI)
           apply (fact g c1 c2 c3 c4 c5 c6)+
     apply (fact d)
    apply (fact e)
    done
qed

theorem writes_unvalidated_witness:
  "addPlan whole_loads ''d1'' bad_reps_item queue_db =
     (Inl StoreError,
      queue_db\<lparr>exercises := exercises queue_db @ [\<lparr>ex_id = 2, ex_name = ''Lunge''\<rparr>],
        exercises_seq := 2\<rparr>)
   \<and> fst (addCompleted whole_loads ''d1'' dangling_item queue_db) = Inl StoreError
   \<and> map ss_day_of_week (split_sets (snd (addSplit whole_loads 9 empty_name_item queue_db))) = [9]"
proof -
  have n: "it_exercise bad_reps_item = Some ''Lunge''" "ci_exercise dangling_item = Some ''Lunge''"
    "length ''Lunge'' \<le> 255" by (simp_all add: bad_reps_item_def dangling_item_def)
  note t = writes_unvalidated [OF n, where s = queue_db and rd = whole_loads
      and logId = "''d1''" and dayOfWeek = 9]
  have new: "\<not> list_ex (\<lambda>e. lower (ex_name e) = lower ''Lunge'') (exercises queue_db)"
    by code_simp
  have seq: "exercises_seq queue_db + 1 = 2" by code_simp
  from t [THEN conjunct2, THEN conjunct1] new seq
  have g: "getExerciseId (Some ''Lunge'') queue_db =
             (Inr 2, queue_db\<lparr>exercises := exercises queue_db @ [\<lparr>ex_id = 2, ex_name = ''Lunge''\<rparr>],
                       exercises_seq := 2\<rparr>)"
    by simp
  have bad: "\<forall>n. int4 (it_reps bad_reps_item) \<noteq> PVal n"
  proof -
    have "int4 (it_reps bad_reps_item) = PRejected" by code_simp
    then show ?thesis by simp
  qed
  from t [THEN conjunct2, THEN conjunct2, THEN conjunct2, THEN conjunct1] bad
  have cols: "set_columns whole_loads bad_reps_item = None" by blast
  have link: "completed_columns whole_loads dangling_item = Some (Some 7, Some 5, Some 100)"
    by code_simp
  have none: "\<not> list_ex (\<lambda>ps. ps_id ps = 7) (planned_sets queue_db)" by code_simp
  from t [THEN conjunct2, THEN conjunct2, THEN conjunct1] obtain exId s1 where
    g': "getExerciseId (Some ''Lunge'') queue_db = (Inr exId, s1)"
    and rej: "set_columns whole_loads bad_reps_item = None
               \<or> \<not> list_ex (\<lambda>d. dl_id d = ''d1'') (daily_logs queue_db) \<longrightarrow>
              addPlan whole_loads ''d1'' bad_reps_item queue_db = (Inl StoreError, s1)"
    and rejc: "completed_columns whole_loads dangling_item = None
             \<or> \<not> list_ex (\<lambda>d. dl_id d = ''d1'') (daily_logs queue_db)
             \<or> (\<exists>p. (\<exists>reps_done load_done.
                        completed_columns whole_loads dangling_item = Some (Some p, reps_done, load_done))
                    \<and> \<not> list_ex (\<lambda>ps. ps_id ps = p) (planned_sets queue_db)) \<longrightarrow>
            addCompleted whole_loads ''d1'' dangling_item queue_db = (Inl StoreError, s1)"
    by blast
  from g g' have s1: "s1 = queue_db\<lparr>exercises := exercises queue_db @ [\<lparr>ex_id = 2, ex_name = ''Lunge''\<rparr>],
                       exercises_seq := 2\<rparr>" by simp
  from rej cols s1 have one: "addPlan whole_loads ''d1'' bad_reps_item queue_db =
     (Inl StoreError,
      queue_db\<lparr>exercises := exercises queue_db @ [\<lparr>ex_id = 2, ex_name = ''Lunge''\<rparr>],
        exercises_seq := 2\<rparr>)" by simp
  from link none have "\<exists>p. (\<exists>reps_done load_done.
                        completed_columns whole_loads dangling_item = Some (Some p, reps_done, load_done))
                    \<and> \<not> list_ex (\<lambda>ps. ps_id ps = p) (planned_sets queue_db)" by blast
  with rejc have two: "fst (addCompleted whole_loads ''d1'' dangling_item queue_db) = Inl StoreError"
    by simp
  have m: "it_exercise empty_name_item = Some []"
    "ci_exercise (dangling_item\<lparr>ci_exercise := Some []\<rparr>) = Some []"
    "length ([]::string) \<le> 255" by (simp_all add: empty_name_item_def)
  note u = writes_unvalidated [OF m, where s = queue_db and rd = whole_loads
      and dayOfWeek = 9 and order_num = 3 and reps = 5 and load = 100 and rest = 60
      and relative = False]
  have cols': "set_columns whole_loads empty_name_item = Some (3, 5, 100, 60, False)" by code_simp
  have nine: "in_int4 9" by (simp add: in_int4_def)
  have empty: "split_sets queue_db = []" by code_simp
  from u [THEN conjunct2, THEN conjunct2, THEN conjunct1] obtain exId' s1' where
    acc: "set_columns whole_loads empty_name_item = Some (3, 5, 100, 60, False) \<and> in_int4 9 \<longrightarrow>
            addSplit whole_loads 9 empty_name_item queue_db =
              (Inr (split_sets_seq queue_db + 1),
               s1'\<lparr>split_sets := split_sets queue_db @
                     [\<lparr>ss_id = split_sets_seq queue_db + 1, ss_day_of_week = 9,
                       ss_exercise_id = exId', ss_order_num = 3, ss_reps = 5,
                       ss_load = 100, ss_rest = 60, ss_relative = False\<rparr>],
                   split_sets_seq := split_sets_seq queue_db + 1\<rparr>)"
    by blast
  from acc cols' nine empty
  have three: "map ss_day_of_week (split_sets (snd (addSplit whole_loads 9 empty_name_item queue_db))) = [9]"
    by simp
  from one two three show ?thesis by simp
qed

text \<open>Claim C8 as stated has an empty exercise name rejected before any write. The
  request with the empty name is accepted: the exercise of that name is created and the
  planned set inserted. And the request whose repetitions are not a number is rejected
  by the store only after its exercise was created.\<close>

theorem empty_name_counterexample:
  "it_exercise empty_name_item = Some []
   \<and> fst (addPlan whole_loads ''d1'' empty_name_item queue_db) = Inr 3
   \<and> map ex_name (exercises queue_db) = [''Squat'']
   \<and> map ex_name (exercises (snd (addPlan whole_loads ''d1'' empty_name_item queue_db)))
       = [''Squat'', []]
   \<and> map ps_id (planned_sets (snd (addPlan whole_loads ''d1'' empty_name_item queue_db)))
       = [1, 2, 3]
   \<and> fst (addPlan whole_loads ''d1'' bad_reps_item queue_db) = Inl StoreError
   \<and> map ex_name (exercises (snd (addPlan whole_loads ''d1'' bad_reps_item queue_db)))
       = [''Squat'', ''Lunge'']"
  by code_simp

end
